theory Spec2Isabelle
  imports Main
begin

section \<open>Go values as the binding engine sees them through reflection\<close>

text \<open>
  The engine (\<^verbatim>\<open>UnmarshalParams\<close> and its helpers) walks a struct with package
  \<^verbatim>\<open>reflect\<close>. The model keeps what the code reads from a \<^verbatim>\<open>reflect.Value\<close>:
  its kind, the name of its type, its content, and for a struct the list of
  \<^verbatim>\<open>reflect.StructField\<close> descriptors paired with the field values.

  Conventions of the model:
  \<^item> a type is identified by its name and kind (package paths are not modelled);
    the predeclared types are \<open>TInt ''int'' KInt\<close>, \<open>TString ''string''\<close>,
    \<open>TBool ''bool''\<close> and so on;
  \<^item> \<^verbatim>\<open>int\<close> is 64 bits wide;
  \<^item> floating-point numbers are an abstract type \<open>'f\<close>; what the code does with them
    (\<^verbatim>\<open>strconv.ParseFloat\<close>, the conversions between floats and integers) is a
    parameter of the model;
  \<^item> a non-nil pointer owns its pointee (\<open>VPtr v\<close>): pointers inside one target are
    not aliased;
  \<^item> every kind the code has no case for (unsigned integers, slices, maps, \<dots>) is
    \<open>VOther\<close>, an opaque value of a named type; fields of interface type are not
    modelled;
  \<^item> a struct tag is the list of its key/value pairs, as \<^verbatim>\<open>StructTag.Get\<close> reads it;
  \<^item> \<open>Exported\<close> is what \<^verbatim>\<open>reflect\<close> knows about the field (an empty
    \<^verbatim>\<open>PkgPath\<close>): a value reached through an unexported field is read-only and
    \<^verbatim>\<open>Interface\<close> and \<^verbatim>\<open>Set\<close> panic on it.
\<close>

datatype ikind = KInt | KInt8 | KInt16 | KInt32 | KInt64

datatype fkind = KFloat32 | KFloat64

record StructField =
  Name :: string
  Tag :: "(string \<times> string) list"
  Anonymous :: bool
  Exported :: bool

datatype gtype =
    TInt string ikind
  | TFloat string fkind
  | TString string
  | TBool string
  | TPtr gtype
  | TStruct string "(StructField \<times> gtype) list"
  | TOther string

datatype 'f gval =
    VInt string ikind int
  | VFloat string fkind 'f
  | VString string string
  | VBool string bool
  | VNil gtype
  | VPtr "'f gval"
  | VStruct string "(StructField \<times> 'f gval) list"
  | VOther string nat

text \<open>\<^verbatim>\<open>Value.Type\<close>, and \<^verbatim>\<open>reflect.Zero\<close> of a type.\<close>

primrec type_of :: "'f gval \<Rightarrow> gtype" where
  "type_of (VInt n k _) = TInt n k"
| "type_of (VFloat n k _) = TFloat n k"
| "type_of (VString n _) = TString n"
| "type_of (VBool n _) = TBool n"
| "type_of (VNil t) = TPtr t"
| "type_of (VPtr v) = TPtr (type_of v)"
| "type_of (VStruct n fs) = TStruct n (map (map_prod id type_of) fs)"
| "type_of (VOther n _) = TOther n"

primrec zero_of :: "gtype \<Rightarrow> ('f::zero) gval" where
  "zero_of (TInt n k) = VInt n k 0"
| "zero_of (TFloat n k) = VFloat n k 0"
| "zero_of (TString n) = VString n []"
| "zero_of (TBool n) = VBool n False"
| "zero_of (TPtr t) = VNil t"
| "zero_of (TStruct n fs) = VStruct n (map (map_prod id zero_of) fs)"
| "zero_of (TOther n) = VOther n 0"

text \<open>
  An \<^verbatim>\<open>interface{}\<close> value is \<open>None\<close> for \<^verbatim>\<open>nil\<close> and \<open>Some v\<close> otherwise.
  \<^verbatim>\<open>objx.Map\<close> is a \<^verbatim>\<open>map[string]interface{}\<close>: an association list read with
  \<open>map_of\<close>, whose length counts the distinct keys.
\<close>

type_synonym 'f iface = "'f gval option"

type_synonym 'f params = "(string \<times> 'f iface) list"

definition len :: "'f params \<Rightarrow> nat" where
  "len params = length (remdups (map fst params))"

text \<open>A call either returns or panics.\<close>

datatype 'a outcome = Panic | Ret 'a

section \<open>Errors\<close>

text \<open>
  \<^verbatim>\<open>errors.New\<close> with its message, the \<^verbatim>\<open>*strconv.NumError\<close> of
  \<^verbatim>\<open>strconv.ParseInt\<close>, and the \<^verbatim>\<open>MissingFields\<close> value of
  \<^verbatim>\<open>missing_fields_error.go\<close>.
\<close>

datatype numerr = ErrSyntax | ErrRange

record MissingFields =
  Names :: "string list"

datatype error =
    ErrorsNew string
  | NumError string string numerr
  | MissingFieldsError MissingFields

definition AddMissingField :: "MissingFields \<Rightarrow> string \<Rightarrow> MissingFields" where
  "AddMissingField err fieldName = err\<lparr>Names := Names err @ [fieldName]\<rparr>"

definition HasMissingFields :: "MissingFields \<Rightarrow> bool" where
  "HasMissingFields err \<longleftrightarrow> length (Names err) > 0"

section \<open>Capabilities and the environment of a call\<close>

text \<open>
  The methods a field type may implement (\<^verbatim>\<open>PreReceiver\<close>,
  \<^verbatim>\<open>RequestValueReceiver\<close>, \<^verbatim>\<open>PostReceiver\<close>, \<^verbatim>\<open>DefaultValueCreator\<close>) are user
  code. A method is a function of its receiver: it returns its error and the
  receiver as the method leaves it (\<^verbatim>\<open>DefaultValue\<close> only returns its value).
  Methods are taken to return; a panic inside user code is not modelled.

  The environment holds the package variable \<^verbatim>\<open>DefaultRequired\<close>, the method set
  of every type, and the library functions the model does not define.
\<close>

record 'f hooks =
  PreReceive :: "('f gval \<Rightarrow> error option \<times> 'f gval) option"
  Receive :: "('f iface \<Rightarrow> 'f gval \<Rightarrow> error option \<times> 'f gval) option"
  PostReceive :: "('f gval \<Rightarrow> error option \<times> 'f gval) option"
  DefaultValue :: "('f gval \<Rightarrow> 'f iface) option"

record 'f env =
  DefaultRequired :: bool
  methodSet :: "gtype \<Rightarrow> 'f hooks"
  ToLower :: "string \<Rightarrow> string"
  ParseFloat :: "string \<Rightarrow> error + 'f"
  FloatOfInt :: "int \<Rightarrow> 'f"
  IntOfFloat :: "'f \<Rightarrow> int"
  Float32Of :: "'f \<Rightarrow> 'f"
  ConvertTo :: "'f gval \<Rightarrow> gtype \<Rightarrow> 'f gval option"

definition noHooks :: "'f hooks" where
  "noHooks = \<lparr>PreReceive = None, Receive = None, PostReceive = None, DefaultValue = None\<rparr>"

text \<open>
  Go declares methods on named non-pointer types only, so the method set of a
  pointer to a pointer is empty.
\<close>

definition methodsOf :: "'f env \<Rightarrow> gtype \<Rightarrow> 'f hooks" where
  "methodsOf E ty = (case ty of TPtr (TPtr _) \<Rightarrow> noHooks | _ \<Rightarrow> methodSet E ty)"

text \<open>
  The calls of user methods that a binding makes are recorded in order, and so is
  each run of the engine's own conversion that returns.
\<close>

datatype 'f call =
    PreReceiveCall
  | ReceiveCall "'f iface"
  | PostReceiveCall
  | DefaultValueCall
  | BuiltinConversion

section \<open>Tag parsing: \<^verbatim>\<open>getNextOption\<close> and \<^verbatim>\<open>NameAndArgs\<close>\<close>

definition TagGet :: "StructField \<Rightarrow> string \<Rightarrow> string" where
  "TagGet f key = (case map_of (Tag f) key of None \<Rightarrow> [] | Some v \<Rightarrow> v)"

definition getNextOption :: "string \<Rightarrow> string \<times> string" where
  "getNextOption remainingTag =
     (if CHR '','' \<notin> set remainingTag then (remainingTag, [])
      else (takeWhile (\<lambda>c. c \<noteq> CHR '','') remainingTag,
            dropWhile (\<lambda>c. c = CHR '','') (dropWhile (\<lambda>c. c \<noteq> CHR '','') remainingTag)))"

text \<open>The loop of \<^verbatim>\<open>NameAndArgs\<close> that collects the options after the name.\<close>

function argsLoop :: "string \<Rightarrow> string list \<Rightarrow> string list" where
  "argsLoop [] args = args"
| "argsLoop (c # cs) args =
     (case getNextOption (c # cs) of
        (nextOption, remaining) \<Rightarrow> argsLoop remaining (args @ [nextOption]))"
  by pat_completeness auto
termination
proof (relation "measure (\<lambda>(remaining, args). length remaining)", goal_cases)
  case 1
  show ?case by simp
next
  case (2 c cs args x1 x2)
  have shorter: "length (snd (getNextOption s)) < length s" if "s \<noteq> []" for s
  proof (cases "CHR '','' \<in> set s")
    case False
    with that show ?thesis by (simp add: getNextOption_def)
  next
    case True
    let ?r = "dropWhile (\<lambda>c. c \<noteq> CHR '','') s"
    from True have ne: "?r \<noteq> []" by simp
    then have "hd ?r = CHR '',''" using hd_dropWhile [of "\<lambda>c. c \<noteq> CHR '',''" s] by simp
    with ne obtain r' where r: "?r = CHR '','' # r'" by (cases ?r) auto
    have "length (dropWhile (\<lambda>c. c = CHR '','') ?r) \<le> length r'"
      unfolding r by (simp add: length_dropWhile_le)
    moreover have "length ?r \<le> length s" by (rule length_dropWhile_le)
    ultimately show ?thesis using True r by (simp add: getNextOption_def)
  qed
  have "x2 = snd (getNextOption (c # cs))" using 2 by (metis snd_conv)
  then show ?case using shorter [of "c # cs"] by simp
qed

definition NameAndArgs :: "'f env \<Rightarrow> StructField \<Rightarrow> string \<times> string list" where
  "NameAndArgs E fieldType =
     (let tag = TagGet fieldType ''request'';
          (name, remaining) = getNextOption tag;
          args = argsLoop remaining []
      in if name \<noteq> [] then (name, args)
         else if TagGet fieldType ''response'' \<noteq> [] then (TagGet fieldType ''response'', args)
         else if TagGet fieldType ''db'' \<noteq> [] \<and> TagGet fieldType ''db'' \<noteq> ''-''
           then (TagGet fieldType ''db'', args)
         else (ToLower E (Name fieldType), args))"

section \<open>\<^verbatim>\<open>strconv.ParseInt(s, 10, 64)\<close>\<close>

text \<open>
  The library function, as \<^verbatim>\<open>strconv\<close> defines it for base 10 and 64 bits: an
  optional sign, then decimal digits only; \<^verbatim>\<open>ParseUint\<close> reads the digits from the
  left and reports a range error as soon as the number leaves 64 bits.
\<close>

definition maxUint64 :: nat where
  "maxUint64 = 2 ^ 64 - 1"

definition isDigit :: "char \<Rightarrow> bool" where
  "isDigit c \<longleftrightarrow> 48 \<le> (of_char c :: nat) \<and> (of_char c :: nat) \<le> 57"

definition digitVal :: "char \<Rightarrow> nat" where
  "digitVal c = of_char c - 48"

fun parseUintLoop :: "string \<Rightarrow> nat \<Rightarrow> numerr + nat" where
  "parseUintLoop [] n = Inr n"
| "parseUintLoop (c # cs) n =
     (if \<not> isDigit c then Inl ErrSyntax
      else if n \<ge> maxUint64 div 10 + 1 then Inl ErrRange
      else if n * 10 + digitVal c > maxUint64 then Inl ErrRange
      else parseUintLoop cs (n * 10 + digitVal c))"

definition ParseUint :: "string \<Rightarrow> numerr + nat" where
  "ParseUint s = (if s = [] then Inl ErrSyntax else parseUintLoop s 0)"

definition ParseInt :: "string \<Rightarrow> error + int" where
  "ParseInt s0 =
     (case s0 of
        [] \<Rightarrow> Inl (NumError ''ParseInt'' s0 ErrSyntax)
      | c # cs \<Rightarrow>
          (let neg = (c = CHR ''-'');
               s = (if c = CHR ''+'' \<or> c = CHR ''-'' then cs else s0)
           in case ParseUint s of
                Inl ErrSyntax \<Rightarrow> Inl (NumError ''ParseInt'' s0 ErrSyntax)
              | Inl ErrRange \<Rightarrow> Inl (NumError ''ParseInt'' s0 ErrRange)
              | Inr un \<Rightarrow>
                  if \<not> neg \<and> un \<ge> 2 ^ 63 then Inl (NumError ''ParseInt'' s0 ErrRange)
                  else if neg \<and> un > 2 ^ 63 then Inl (NumError ''ParseInt'' s0 ErrRange)
                  else Inr (if neg then - int un else int un)))"

section \<open>\<^verbatim>\<open>setInt\<close>, \<^verbatim>\<open>setFloat\<close> and the conversion by kind\<close>

definition bits :: "ikind \<Rightarrow> nat" where
  "bits k = (case k of KInt \<Rightarrow> 64 | KInt8 \<Rightarrow> 8 | KInt16 \<Rightarrow> 16 | KInt32 \<Rightarrow> 32 | KInt64 \<Rightarrow> 64)"

text \<open>The value a signed integer of \<open>w\<close> bits keeps of \<open>x\<close>.\<close>

definition swrap :: "nat \<Rightarrow> int \<Rightarrow> int" where
  "swrap w x = (x + 2 ^ (w - 1)) mod 2 ^ w - 2 ^ (w - 1)"

text \<open>The names of the predeclared types the type switches match.\<close>

definition ikindName :: "ikind \<Rightarrow> string" where
  "ikindName k = (case k of KInt \<Rightarrow> ''int'' | KInt8 \<Rightarrow> ''int8'' | KInt16 \<Rightarrow> ''int16''
                  | KInt32 \<Rightarrow> ''int32'' | KInt64 \<Rightarrow> ''int64'')"

definition fkindName :: "fkind \<Rightarrow> string" where
  "fkindName k = (case k of KFloat32 \<Rightarrow> ''float32'' | KFloat64 \<Rightarrow> ''float64'')"

text \<open>
  \<^verbatim>\<open>Value.SetInt\<close> and \<^verbatim>\<open>Value.SetFloat\<close>: they panic on a read-only value and on
  a value of another kind, and store the number in the width of the target.
\<close>

definition SetInt :: "bool \<Rightarrow> 'f gval \<Rightarrow> int \<Rightarrow> (error option \<times> 'f gval) outcome" where
  "SetInt ro target x =
     (if ro then Panic
      else case target of
             VInt n k _ \<Rightarrow> Ret (None, VInt n k (swrap (bits k) x))
           | _ \<Rightarrow> Panic)"

definition SetFloat :: "'f env \<Rightarrow> bool \<Rightarrow> 'f gval \<Rightarrow> 'f \<Rightarrow> (error option \<times> 'f gval) outcome" where
  "SetFloat E ro target x =
     (if ro then Panic
      else case target of
             VFloat n k _ \<Rightarrow> Ret (None, VFloat n k (case k of KFloat32 \<Rightarrow> Float32Of E x | KFloat64 \<Rightarrow> x))
           | _ \<Rightarrow> Panic)"

definition setInt :: "'f env \<Rightarrow> bool \<Rightarrow> 'f gval \<Rightarrow> 'f gval \<Rightarrow> (error option \<times> 'f gval) outcome" where
  "setInt E ro target value =
     (case value of
        VString n src \<Rightarrow>
          if n = ''string''
          then (case ParseInt src of
                  Inl err \<Rightarrow> Ret (Some err, target)
                | Inr intVal \<Rightarrow> SetInt ro target intVal)
          else Ret (None, target)
      | VInt n k src \<Rightarrow> if n = ikindName k then SetInt ro target src else Ret (None, target)
      | VFloat n k src \<Rightarrow>
          if n = fkindName k then SetInt ro target (IntOfFloat E src) else Ret (None, target)
      | _ \<Rightarrow> Ret (None, target))"

definition setFloat :: "'f env \<Rightarrow> bool \<Rightarrow> 'f gval \<Rightarrow> 'f gval \<Rightarrow> (error option \<times> 'f gval) outcome" where
  "setFloat E ro target value =
     (case value of
        VString n src \<Rightarrow>
          if n = ''string''
          then (case ParseFloat E src of
                  Inl err \<Rightarrow> Ret (Some err, target)
                | Inr floatVal \<Rightarrow> SetFloat E ro target floatVal)
          else Ret (None, target)
      | VInt n k src \<Rightarrow>
          if n = ikindName k then SetFloat E ro target (FloatOfInt E src) else Ret (None, target)
      | VFloat n k src \<Rightarrow> if n = fkindName k then SetFloat E ro target src else Ret (None, target)
      | _ \<Rightarrow> Ret (None, target))"

text \<open>
  The \<^verbatim>\<open>switch target.Kind()\<close> that ends \<^verbatim>\<open>setValue\<close>. \<open>ConvertTo E value ty\<close> is
  \<^verbatim>\<open>reflect\<close>'s conversion of \<open>value\<close> to the type \<open>ty\<close>, \<open>None\<close> when the type of the
  value is not \<^verbatim>\<open>ConvertibleTo\<close> it.
\<close>

definition convertKind :: "'f env \<Rightarrow> bool \<Rightarrow> 'f gval \<Rightarrow> 'f gval \<Rightarrow> (error option \<times> 'f gval) outcome" where
  "convertKind E ro target value =
     (case target of
        VInt _ _ _ \<Rightarrow> setInt E ro target value
      | VFloat _ _ _ \<Rightarrow> setFloat E ro target value
      | _ \<Rightarrow>
          (case ConvertTo E value (type_of target) of
             None \<Rightarrow> Ret (Some (ErrorsNew ''Cannot convert value to target type''), target)
           | Some converted \<Rightarrow> if ro then Panic else Ret (None, converted)))"

section \<open>The nullable-wrapper convention\<close>

definition SqlNullablePrefix :: string where
  "SqlNullablePrefix = ''Null''"

definition SqlNotNullField :: string where
  "SqlNotNullField = ''Valid''"

text \<open>
  \<^verbatim>\<open>Value.FieldByName\<close> on the struct's own fields: the index of the field of that
  name. (\<^verbatim>\<open>reflect\<close> goes on to the fields promoted from embedded structs when
  the struct has no field of the name; that search is not modelled, the
  \<^verbatim>\<open>Null*\<close> types of \<^verbatim>\<open>database/sql\<close> embed nothing.)
\<close>

fun FieldByName :: "(StructField \<times> 'a) list \<Rightarrow> string \<Rightarrow> nat option" where
  "FieldByName [] name = None"
| "FieldByName ((sf, v) # fs) name =
     (if name \<noteq> [] \<and> Name sf = name then Some 0
      else map_option Suc (FieldByName fs name))"

text \<open>
  \<^verbatim>\<open>notNullVal.Set(reflect.ValueOf(value != nil))\<close>, where \<^verbatim>\<open>value\<close> is not nil:
  the field takes \<^verbatim>\<open>true\<close> when it is a settable \<^verbatim>\<open>bool\<close>; \<^verbatim>\<open>Set\<close> panics otherwise.
\<close>

definition setNotNull :: "StructField \<times> 'f gval \<Rightarrow> (StructField \<times> 'f gval) option" where
  "setNotNull fv =
     (case fv of
        (sf, VBool n b) \<Rightarrow> if Exported sf \<and> n = ''bool'' then Some (sf, VBool n True) else None
      | _ \<Rightarrow> None)"

text \<open>Lines 247 to 275 of \<^verbatim>\<open>setValue\<close>, on the target the pointers lead to.\<close>

definition convertInner :: "'f env \<Rightarrow> 'f gval \<Rightarrow> 'f gval \<Rightarrow> (error option \<times> 'f gval) outcome" where
  "convertInner E target value =
     (case target of
        VStruct targetTypeName fs \<Rightarrow>
          if take (length SqlNullablePrefix) targetTypeName = SqlNullablePrefix
          then (let typeName = drop (length SqlNullablePrefix) targetTypeName
                in case (FieldByName fs typeName, FieldByName fs SqlNotNullField) of
                     (Some i, Some j) \<Rightarrow>
                       (case setNotNull (fs ! j) of
                          None \<Rightarrow> Panic
                        | Some notNull \<Rightarrow>
                            (let fs1 = fs[j := notNull]
                             in case convertKind E (\<not> Exported (fst (fs1 ! i))) (snd (fs1 ! i)) value of
                                  Panic \<Rightarrow> Panic
                                | Ret (parseErr, typeVal) \<Rightarrow>
                                    Ret (parseErr,
                                         VStruct targetTypeName (fs1[i := (fst (fs1 ! i), typeVal)]))))
                   | _ \<Rightarrow> convertKind E False target value)
          else convertKind E False target value
      | _ \<Rightarrow> convertKind E False target value)"

text \<open>
  The loop \<^verbatim>\<open>for target.Kind() == reflect.Ptr { target = target.Elem() }\<close>: the value
  the pointers lead to, \<open>None\<close> when a pointer on the way is nil (the
  \<^verbatim>\<open>target.Type()\<close> that follows panics on the zero \<^verbatim>\<open>Value\<close>); and the target with
  that value replaced.
\<close>

fun derefAll :: "'f gval \<Rightarrow> 'f gval option" where
  "derefAll (VPtr v) = derefAll v"
| "derefAll (VNil t) = None"
| "derefAll v = Some v"

fun rewrap :: "'f gval \<Rightarrow> 'f gval \<Rightarrow> 'f gval" where
  "rewrap (VPtr v) x = VPtr (rewrap v x)"
| "rewrap v x = x"

text \<open>Lines 244 to 275 of \<^verbatim>\<open>setValue\<close>: the conversion the engine does by itself.\<close>

definition builtinConvert :: "'f env \<Rightarrow> 'f gval \<Rightarrow> 'f gval \<Rightarrow> (error option \<times> 'f gval) outcome" where
  "builtinConvert E target value =
     (case derefAll target of
        None \<Rightarrow> Panic
      | Some inner \<Rightarrow>
          (case convertInner E inner value of
             Panic \<Rightarrow> Panic
           | Ret (parseErr, inner') \<Rightarrow> Ret (parseErr, rewrap target inner')))"

section \<open>\<^verbatim>\<open>setValue\<close>\<close>

text \<open>
  How a method found by a type assertion is bound to the target:
  \<^item> \<open>OnCopy v\<close>: found on \<^verbatim>\<open>target.Interface()\<close> of a non-pointer target, which is a
    copy \<open>v\<close> of the target as it was when the assertion was made; what the method
    does to its receiver is lost;
  \<^item> \<open>OnPointer\<close>: found on \<^verbatim>\<open>target.Interface()\<close> of a pointer target, the receiver
    is the pointer;
  \<^item> \<open>OnAddr\<close>: found on \<^verbatim>\<open>target.Addr().Interface()\<close>, the receiver is the address
    of the target (the fields of the struct being filled are addressable).
\<close>

datatype 'f binding = OnCopy "'f gval" | OnPointer | OnAddr

definition bindHook :: "('f hooks \<Rightarrow> 'h option) \<Rightarrow> 'f env \<Rightarrow> 'f gval \<Rightarrow> ('h \<times> 'f binding) option" where
  "bindHook sel E target =
     (case sel (methodsOf E (type_of target)) of
        Some h \<Rightarrow> Some (h, case target of VPtr _ \<Rightarrow> OnPointer | VNil _ \<Rightarrow> OnPointer | _ \<Rightarrow> OnCopy target)
      | None \<Rightarrow>
          (case sel (methodsOf E (TPtr (type_of target))) of
             Some h \<Rightarrow> Some (h, OnAddr)
           | None \<Rightarrow> None))"

text \<open>
  Calling a bound method on the target as it is now. A method whose receiver is
  a pointer leaves the pointer in place and may change what it points to.
\<close>

definition runHook :: "('f gval \<Rightarrow> error option \<times> 'f gval) \<Rightarrow> 'f binding \<Rightarrow> 'f gval \<Rightarrow> error option \<times> 'f gval" where
  "runHook h b target =
     (case b of
        OnCopy v \<Rightarrow> (fst (h v), target)
      | OnPointer \<Rightarrow> (fst (h target), case snd (h target) of VPtr x \<Rightarrow> VPtr x | _ \<Rightarrow> target)
      | OnAddr \<Rightarrow> (fst (h (VPtr target)), case snd (h (VPtr target)) of VPtr x \<Rightarrow> x | _ \<Rightarrow> target))"

definition allocIfNil :: "('f::zero) gval \<Rightarrow> 'f gval" where
  "allocIfNil target = (case target of VNil t \<Rightarrow> VPtr (zero_of t) | _ \<Rightarrow> target)"

definition runPre :: "(('f gval \<Rightarrow> error option \<times> 'f gval) \<times> 'f binding) option \<Rightarrow> 'f gval
    \<Rightarrow> error option \<times> 'f gval \<times> 'f call list" where
  "runPre pre target =
     (case pre of
        None \<Rightarrow> (None, target, [])
      | Some (preReceiver, b) \<Rightarrow>
          (fst (runHook preReceiver b target), snd (runHook preReceiver b target), [PreReceiveCall]))"

text \<open>
  \<^verbatim>\<open>if hasReceive { return receiver.Receive(value) }\<close>, and the built-in conversion
  otherwise.
\<close>

definition runReceive :: "'f env \<Rightarrow> (('f iface \<Rightarrow> 'f gval \<Rightarrow> error option \<times> 'f gval) \<times> 'f binding) option
    \<Rightarrow> 'f gval \<Rightarrow> 'f gval \<Rightarrow> (error option \<times> 'f gval \<times> 'f call list) outcome" where
  "runReceive E rcv target value =
     (case rcv of
        Some (receiver, b) \<Rightarrow>
          Ret (fst (runHook (receiver (Some value)) b target),
               snd (runHook (receiver (Some value)) b target), [ReceiveCall (Some value)])
      | None \<Rightarrow>
          (case builtinConvert E target value of
             Panic \<Rightarrow> Panic
           | Ret (parseErr, target') \<Rightarrow> Ret (parseErr, target', [BuiltinConversion])))"

text \<open>The deferred function: it runs \<^verbatim>\<open>PostReceive\<close> when \<^verbatim>\<open>parseErr\<close> is nil.\<close>

definition runPost :: "(('f gval \<Rightarrow> error option \<times> 'f gval) \<times> 'f binding) option \<Rightarrow> 'f gval
    \<Rightarrow> error option \<times> 'f gval \<times> 'f call list" where
  "runPost post target =
     (case post of
        None \<Rightarrow> (None, target, [])
      | Some (postReceiver, b) \<Rightarrow>
          (fst (runHook postReceiver b target), snd (runHook postReceiver b target), [PostReceiveCall]))"

text \<open>
  \<open>setValue E ro target value\<close>: \<open>ro\<close> says that \<open>target\<close> was reached through an
  unexported field. The result is the error, the target as the call leaves it,
  and the calls of user methods it made.
\<close>

definition setValue :: "('f::zero) env \<Rightarrow> bool \<Rightarrow> 'f gval \<Rightarrow> 'f iface
    \<Rightarrow> (error option \<times> 'f gval \<times> 'f call list) outcome" where
  "setValue E ro target0 value =
     (case value of
        None \<Rightarrow>
          (case target0 of
             VPtr v \<Rightarrow> if ro then Panic else Ret (None, VNil (type_of v), [])
           | VNil t \<Rightarrow> Ret (None, target0, [])
           | _ \<Rightarrow> Ret (Some (ErrorsNew ''Cannot set non-pointer value to null''), target0, []))
      | Some v \<Rightarrow>
          if ro then Panic
          else
            (let target = allocIfNil target0;
                 pre = bindHook PreReceive E target;
                 rcv = bindHook Receive E target;
                 post = bindHook PostReceive E target
             in case runPre pre target of
                  (Some parseErr, t1, cs1) \<Rightarrow> Ret (Some parseErr, t1, cs1)
                | (None, t1, cs1) \<Rightarrow>
                    (case runReceive E rcv t1 v of
                       Panic \<Rightarrow> Panic
                     | Ret (Some parseErr, t2, cs2) \<Rightarrow> Ret (Some parseErr, t2, cs1 @ cs2)
                     | Ret (None, t2, cs2) \<Rightarrow>
                         (case runPost post t2 of
                            (parseErr, t3, cs3) \<Rightarrow> Ret (parseErr, t3, cs1 @ cs2 @ cs3)))))"

section \<open>\<^verbatim>\<open>unmarshalToValue\<close> and \<^verbatim>\<open>UnmarshalParams\<close>\<close>

text \<open>
  \<^verbatim>\<open>unicode.IsUpper(rune(fieldType.Name[0]))\<close>: the first byte of the name, read as
  a Latin-1 code point.
\<close>

definition IsUpper :: "char \<Rightarrow> bool" where
  "IsUpper c \<longleftrightarrow>
     (65 \<le> (of_char c :: nat) \<and> (of_char c :: nat) \<le> 90) \<or>
     (192 \<le> (of_char c :: nat) \<and> (of_char c :: nat) \<le> 214) \<or>
     (216 \<le> (of_char c :: nat) \<and> (of_char c :: nat) \<le> 222)"

text \<open>The loop over \<^verbatim>\<open>args\<close> that settles whether the field is required.\<close>

fun requiredOf :: "bool \<Rightarrow> string list \<Rightarrow> bool" where
  "requiredOf required [] = required"
| "requiredOf required (arg # args) =
     (if arg = ''optional'' then False
      else if arg = ''required'' then True
      else requiredOf required args)"

text \<open>
  The state of a traversal: the \<^verbatim>\<open>MissingFields\<close> that \<^verbatim>\<open>UnmarshalParams\<close>
  allocates, and the calls made so far, each with the place of its field (the
  indices that lead to it from the outer struct) and the descriptor of the field.
\<close>

type_synonym path = "nat list"

type_synonym 'f event = "path \<times> StructField \<times> 'f call"

record 'f tstate =
  missingErr :: MissingFields
  calls :: "'f event list"

definition logCalls :: "path \<Rightarrow> StructField \<Rightarrow> 'f call list \<Rightarrow> 'f tstate \<Rightarrow> 'f tstate" where
  "logCalls p fieldType cs st = st\<lparr>calls := calls st @ map (\<lambda>c. (p, fieldType, c)) cs\<rparr>"

text \<open>
  The body of the loop for a field that is not embedded. The result is the
  number of fields matched (0 or 1), the error, the field and the state.
\<close>

definition unmarshalField :: "('f::zero) env \<Rightarrow> 'f params \<Rightarrow> path \<Rightarrow> StructField \<Rightarrow> 'f gval \<Rightarrow> 'f tstate
    \<Rightarrow> (nat \<times> error option \<times> 'f gval \<times> 'f tstate) outcome" where
  "unmarshalField E params p fieldType field st =
     (case Name fieldType of
        [] \<Rightarrow> Panic
      | c # _ \<Rightarrow>
          if IsUpper c
          then (let (name, args) = NameAndArgs E fieldType
                in if name = ''-'' then Ret (0, None, field, st)
                   else
                     (let required = requiredOf (DefaultRequired E) args
                      in case map_of params name of
                           Some value \<Rightarrow>
                             (case setValue E (\<not> Exported fieldType) field value of
                                Panic \<Rightarrow> Panic
                              | Ret (parseErr, field', cs) \<Rightarrow>
                                  Ret (1, parseErr, field', logCalls p fieldType cs st))
                         | None \<Rightarrow>
                             if required
                             then Ret (0, None, field,
                                       st\<lparr>missingErr := AddMissingField (missingErr st) name\<rparr>)
                             else if \<not> Exported fieldType then Panic
                             else
                               (case DefaultValue (methodsOf E (type_of field)) of
                                  Some defaulter \<Rightarrow>
                                    (case setValue E False field (defaulter field) of
                                       Panic \<Rightarrow> Panic
                                     | Ret (_, field', cs) \<Rightarrow>
                                         Ret (0, None, field', logCalls p fieldType (DefaultValueCall # cs) st))
                                | None \<Rightarrow> Ret (0, None, field, st))))
          else Ret (0, None, field, st))"

text \<open>
  The traversal. \<open>unmarshalFields E params p i fs st\<close> is the loop from index \<open>i\<close>
  on, \<open>fs\<close> being the fields from there; the loop stops at the first error.
  \<^verbatim>\<open>NumField\<close> panics on a value that is not a struct.
\<close>

fun unmarshalToValue :: "('f::zero) env \<Rightarrow> 'f params \<Rightarrow> path \<Rightarrow> 'f gval \<Rightarrow> 'f tstate
    \<Rightarrow> (nat \<times> error option \<times> 'f gval \<times> 'f tstate) outcome"
and unmarshalFields :: "'f env \<Rightarrow> 'f params \<Rightarrow> path \<Rightarrow> nat \<Rightarrow> (StructField \<times> 'f gval) list \<Rightarrow> 'f tstate
    \<Rightarrow> (nat \<times> error option \<times> (StructField \<times> 'f gval) list \<times> 'f tstate) outcome" where
  "unmarshalToValue E params p (VStruct n fs) st =
     (case unmarshalFields E params p 0 fs st of
        Panic \<Rightarrow> Panic
      | Ret (matchedFields, parseErr, fs', st') \<Rightarrow> Ret (matchedFields, parseErr, VStruct n fs', st'))"
| "unmarshalToValue E params p (VInt n k x) st = Panic"
| "unmarshalToValue E params p (VFloat n k x) st = Panic"
| "unmarshalToValue E params p (VString n x) st = Panic"
| "unmarshalToValue E params p (VBool n x) st = Panic"
| "unmarshalToValue E params p (VNil t) st = Panic"
| "unmarshalToValue E params p (VPtr v) st = Panic"
| "unmarshalToValue E params p (VOther n x) st = Panic"
| "unmarshalFields E params p i [] st = Ret (0, None, [], st)"
| "unmarshalFields E params p i ((fieldType, field) # rest) st =
     (case (if Anonymous fieldType then unmarshalToValue E params (p @ [i]) field st
            else unmarshalField E params (p @ [i]) fieldType field st) of
        Panic \<Rightarrow> Panic
      | Ret (count, parseErr, field', st') \<Rightarrow>
          if parseErr \<noteq> None then Ret (count, parseErr, (fieldType, field') # rest, st')
          else
            (case unmarshalFields E params p (Suc i) rest st' of
               Panic \<Rightarrow> Panic
             | Ret (matchedFields, parseErr', rest', st'') \<Rightarrow>
                 Ret (count + matchedFields, parseErr', (fieldType, field') # rest', st'')))"

text \<open>One turn of the loop: an embedded field is traversed, any other is bound.\<close>

definition loopBody :: "('f::zero) env \<Rightarrow> 'f params \<Rightarrow> path \<Rightarrow> StructField \<Rightarrow> 'f gval \<Rightarrow> 'f tstate
    \<Rightarrow> (nat \<times> error option \<times> 'f gval \<times> 'f tstate) outcome" where
  "loopBody E params q fieldType field st =
     (if Anonymous fieldType then unmarshalToValue E params q field st
      else unmarshalField E params q fieldType field st)"

text \<open>
  \<^verbatim>\<open>UnmarshalParams\<close>: \<^verbatim>\<open>Elem\<close> and the traversal panic unless \<open>target\<close> is a non-nil
  pointer to a struct. The result is the error returned, the target as the call
  leaves it, and the calls made.
\<close>

definition newState :: "'f tstate" where
  "newState = \<lparr>missingErr = \<lparr>Names = []\<rparr>, calls = []\<rparr>"

definition UnmarshalParams :: "('f::zero) env \<Rightarrow> 'f params \<Rightarrow> 'f iface
    \<Rightarrow> (error option \<times> 'f iface \<times> 'f event list) outcome" where
  "UnmarshalParams E params target =
     (case target of
        Some (VPtr targetValue) \<Rightarrow>
          (case unmarshalToValue E params [] targetValue newState of
             Panic \<Rightarrow> Panic
           | Ret (matchedFields, err, targetValue', st) \<Rightarrow>
               Ret (case err of
                      Some e \<Rightarrow> Some e
                    | None \<Rightarrow>
                        if matchedFields < len params
                        then Some (ErrorsNew ''More parameters passed than this model has fields.'')
                        else if HasMissingFields (missingErr st)
                        then Some (MissingFieldsError (missingErr st))
                        else None,
                    Some (VPtr targetValue'), calls st))
      | _ \<Rightarrow> Panic)"

section \<open>The vocabulary of the statements\<close>

text \<open>
  The key resolution rule in the words of the specification: the first
  non-empty value among the name in the \<^verbatim>\<open>request\<close> tag (what precedes the first
  comma), the \<^verbatim>\<open>response\<close> tag, the \<^verbatim>\<open>db\<close> tag unless it is \<^verbatim>\<open>"-"\<close>, and the
  lower-cased name of the field.
\<close>

fun firstNonEmpty :: "string list \<Rightarrow> string" where
  "firstNonEmpty [] = []"
| "firstNonEmpty (s # ss) = (if s \<noteq> [] then s else firstNonEmpty ss)"

definition requestName :: "StructField \<Rightarrow> string" where
  "requestName f = takeWhile (\<lambda>c. c \<noteq> CHR '','') (TagGet f ''request'')"

definition resolvedKey :: "'f env \<Rightarrow> StructField \<Rightarrow> string" where
  "resolvedKey E f =
     firstNonEmpty [requestName f, TagGet f ''response'',
                    if TagGet f ''db'' = ''-'' then [] else TagGet f ''db'',
                    ToLower E (Name f)]"

text \<open>
  The test the loop makes before it binds a field,
  \<^verbatim>\<open>unicode.IsUpper(rune(fieldType.Name[0]))\<close>. It is a property of the first byte of
  the name and not the same thing as the field being exported, which is
  \<open>Exported\<close>: the two agree on names that start with an ASCII letter.
\<close>

definition passesNameTest :: "StructField \<Rightarrow> bool" where
  "passesNameTest f = (case Name f of [] \<Rightarrow> False | c # _ \<Rightarrow> IsUpper c)"

text \<open>A field is required as its options and \<^verbatim>\<open>DefaultRequired\<close> settle.\<close>

definition isRequired :: "'f env \<Rightarrow> StructField \<Rightarrow> bool" where
  "isRequired E f = requiredOf (DefaultRequired E) (snd (NameAndArgs E f))"




text \<open>The calls of \<^verbatim>\<open>DefaultValue\<close> made for the field at the place \<open>q\<close>.\<close>

definition defaultsAt :: "path \<Rightarrow> 'f event list \<Rightarrow> 'f event list" where
  "defaultsAt q evs = filter (\<lambda>ev. fst ev = q \<and> snd (snd ev) = DefaultValueCall) evs"

text \<open>
  What the statement about \<^verbatim>\<open>DefaultValue\<close> asks of a list of recorded calls: at
  most one call of it for a place, and each for a field that is not required and
  whose key is not in the map.
\<close>

definition okEvents :: "'f env \<Rightarrow> 'f params \<Rightarrow> 'f event list \<Rightarrow> bool" where
  "okEvents E ps new \<longleftrightarrow>
     (\<forall>q. length (defaultsAt q new) \<le> 1) \<and>
     (\<forall>ev \<in> set new. snd (snd ev) = DefaultValueCall \<longrightarrow>
        map_of ps (resolvedKey E (fst (snd ev))) = None \<and> \<not> isRequired E (fst (snd ev)))"

text \<open>
  The error of the \<^verbatim>\<open>PreReceive\<close> method of a target, if it has one, and the
  target as that method leaves it.
\<close>

definition preError :: "('f::zero) env \<Rightarrow> 'f gval \<Rightarrow> error option" where
  "preError E v = fst (runPre (bindHook PreReceive E (allocIfNil v)) (allocIfNil v))"

definition afterPre :: "('f::zero) env \<Rightarrow> 'f gval \<Rightarrow> 'f gval" where
  "afterPre E v = fst (snd (runPre (bindHook PreReceive E (allocIfNil v)) (allocIfNil v)))"

section \<open>Environments and records for the examples\<close>

definition asciiLower :: "char \<Rightarrow> char" where
  "asciiLower c =
     (case map_of (zip ''ABCDEFGHIJKLMNOPQRSTUVWXYZ'' ''abcdefghijklmnopqrstuvwxyz'') c of
        Some l \<Rightarrow> l
      | None \<Rightarrow> c)"

text \<open>
  An environment where no type has methods; floats are stood for by integers,
  and a value converts to its own type only.
\<close>

definition plainEnv :: "bool \<Rightarrow> int env" where
  "plainEnv req =
     \<lparr>DefaultRequired = req, methodSet = (\<lambda>ty. noHooks), ToLower = map asciiLower,
      ParseFloat = (\<lambda>s. Inl (ErrorsNew ''ParseFloat'')), FloatOfInt = (\<lambda>i. i),
      IntOfFloat = (\<lambda>x. x), Float32Of = (\<lambda>x. x),
      ConvertTo = (\<lambda>v ty. if type_of v = ty then Some v else None)\<rparr>"

text \<open>
  The type \<^verbatim>\<open>Password\<close> of the README, a string with a \<^verbatim>\<open>Receive\<close> method on
  its pointer; here the method stores the string it is given and fails on
  anything else. \<^verbatim>\<open>Level\<close> is an integer type whose \<^verbatim>\<open>DefaultValue\<close> is 7.
\<close>

definition passwordReceive :: "int iface \<Rightarrow> int gval \<Rightarrow> error option \<times> int gval" where
  "passwordReceive raw self =
     (case raw of
        Some (VString n s) \<Rightarrow> (None, VPtr (VString ''Password'' s))
      | _ \<Rightarrow> (Some (ErrorsNew ''Cannot read non-string password''), self))"

definition userMethods :: "gtype \<Rightarrow> int hooks" where
  "userMethods ty =
     (if ty = TPtr (TString ''Password'') then noHooks\<lparr>Receive := Some passwordReceive\<rparr>
      else if ty = TInt ''Level'' KInt
        then noHooks\<lparr>DefaultValue := Some (\<lambda>self. Some (VInt ''int'' KInt 7))\<rparr>
      else noHooks)"

definition userEnv :: "bool \<Rightarrow> int env" where
  "userEnv req = (plainEnv req)\<lparr>methodSet := userMethods\<rparr>"

definition fieldOf :: "string \<Rightarrow> (string \<times> string) list \<Rightarrow> StructField" where
  "fieldOf n t = \<lparr>Name = n, Tag = t, Anonymous = False, Exported = True\<rparr>"

definition nullInt64 :: "int \<Rightarrow> bool \<Rightarrow> int gval" where
  "nullInt64 x valid =
     VStruct ''NullInt64'' [(fieldOf ''Int64'' [], VInt ''int64'' KInt64 x),
                            (fieldOf ''Valid'' [], VBool ''bool'' valid)]"

text \<open>
  Two field names outside ASCII, as their UTF-8 bytes: an exported one that
  starts with the upper-case letter U+1E00, and an unexported one that starts
  with the lower-case letter U+00F1.
\<close>

definition upperName :: string where
  "upperName = [CHR 0xE1, CHR 0xB8, CHR 0x80, CHR ''b'', CHR ''c'']"

definition lowerName :: string where
  "lowerName = [CHR 0xC3, CHR 0xB1, CHR ''a'', CHR ''m'', CHR ''e'']"

section \<open>The loop body, case by case\<close>

lemma fst_getNextOption: "fst (getNextOption s) = takeWhile (\<lambda>c. c \<noteq> CHR '','') s"
  by (auto simp: getNextOption_def intro: takeWhile_eq_all_conv [THEN iffD2, symmetric])

lemma fst_NameAndArgs: "fst (NameAndArgs E f) = resolvedKey E f"
  by (simp add: NameAndArgs_def resolvedKey_def requestName_def Let_def split_beta fst_getNextOption)

lemma uf_fails_test:
  "Name f \<noteq> [] \<Longrightarrow> \<not> passesNameTest f \<Longrightarrow> unmarshalField E ps p f v st = Ret (0, None, v, st)"
  by (auto simp: unmarshalField_def passesNameTest_def split: list.splits)

lemma uf_skip:
  "passesNameTest f \<Longrightarrow> resolvedKey E f = ''-'' \<Longrightarrow> unmarshalField E ps p f v st = Ret (0, None, v, st)"
  using fst_NameAndArgs [of E f]
  by (auto simp: unmarshalField_def passesNameTest_def split_beta Let_def split: list.splits)

lemma uf_present:
  "passesNameTest f \<Longrightarrow> resolvedKey E f \<noteq> ''-'' \<Longrightarrow> map_of ps (resolvedKey E f) = Some raw \<Longrightarrow>
   unmarshalField E ps p f v st =
     (case setValue E (\<not> Exported f) v raw of
        Panic \<Rightarrow> Panic
      | Ret (parseErr, v', cs) \<Rightarrow> Ret (1, parseErr, v', logCalls p f cs st))"
  using fst_NameAndArgs [of E f]
  by (auto simp: unmarshalField_def passesNameTest_def split_beta Let_def split: list.splits)

lemma uf_required:
  "passesNameTest f \<Longrightarrow> resolvedKey E f \<noteq> ''-'' \<Longrightarrow> map_of ps (resolvedKey E f) = None \<Longrightarrow>
   isRequired E f \<Longrightarrow>
   unmarshalField E ps p f v st =
     Ret (0, None, v, st\<lparr>missingErr := AddMissingField (missingErr st) (resolvedKey E f)\<rparr>)"
  using fst_NameAndArgs [of E f]
  by (auto simp: unmarshalField_def passesNameTest_def isRequired_def split_beta Let_def split: list.splits)

lemma uf_optional:
  "passesNameTest f \<Longrightarrow> resolvedKey E f \<noteq> ''-'' \<Longrightarrow> map_of ps (resolvedKey E f) = None \<Longrightarrow>
   \<not> isRequired E f \<Longrightarrow>
   unmarshalField E ps p f v st =
     (if \<not> Exported f then Panic
      else case DefaultValue (methodsOf E (type_of v)) of
             Some defaulter \<Rightarrow>
               (case setValue E False v (defaulter v) of
                  Panic \<Rightarrow> Panic
                | Ret (x, v', cs) \<Rightarrow> Ret (0, None, v', logCalls p f (DefaultValueCall # cs) st))
           | None \<Rightarrow> Ret (0, None, v, st))"
  using fst_NameAndArgs [of E f]
  by (auto simp: unmarshalField_def passesNameTest_def isRequired_def split_beta Let_def
      split: list.splits option.splits outcome.splits)

text \<open>The definitions a concrete call unfolds to.\<close>

lemmas eval_defs = UnmarshalParams_def unmarshalField_def NameAndArgs_def TagGet_def
  getNextOption_def plainEnv_def userEnv_def userMethods_def passwordReceive_def fieldOf_def
  nullInt64_def upperName_def lowerName_def setValue_def passesNameTest_def IsUpper_def
  resolvedKey_def requestName_def isRequired_def asciiLower_def allocIfNil_def bindHook_def
  runHook_def methodsOf_def noHooks_def runPre_def runPost_def runReceive_def
  builtinConvert_def convertInner_def convertKind_def setInt_def setFloat_def SetInt_def
  SetFloat_def setNotNull_def SqlNullablePrefix_def SqlNotNullField_def ParseInt_def
  ParseUint_def isDigit_def digitVal_def maxUint64_def bits_def swrap_def ikindName_def
  fkindName_def logCalls_def newState_def len_def AddMissingField_def HasMissingFields_def
  Let_def

section \<open>The traversal and the conversion without methods\<close>

lemma unmarshalFields_Cons:
  "unmarshalFields E ps p i ((ft, fv) # rest) st =
     (case loopBody E ps (p @ [i]) ft fv st of
        Panic \<Rightarrow> Panic
      | Ret (c, pe, fv', st') \<Rightarrow>
          if pe \<noteq> None then Ret (c, pe, (ft, fv') # rest, st')
          else (case unmarshalFields E ps p (Suc i) rest st' of
                  Panic \<Rightarrow> Panic
                | Ret (m, e', rest', st'') \<Rightarrow> Ret (c + m, e', (ft, fv') # rest', st'')))"
  by (simp add: loopBody_def)

lemma unmarshalFields_append:
  "unmarshalFields E ps p i (xs @ ys) st =
     (case unmarshalFields E ps p i xs st of
        Panic \<Rightarrow> Panic
      | Ret (n, e, xs', st') \<Rightarrow>
          if e \<noteq> None then Ret (n, e, xs' @ ys, st')
          else (case unmarshalFields E ps p (i + length xs) ys st' of
                  Panic \<Rightarrow> Panic
                | Ret (m, e', ys', st'') \<Rightarrow> Ret (n + m, e', xs' @ ys', st'')))"
proof (induction xs arbitrary: i st)
  case Nil
  show ?case by (simp split: outcome.splits)
next
  case (Cons x xs)
  obtain ft fv where x: "x = (ft, fv)" by (cases x)
  show ?case
  proof (cases "loopBody E ps (p @ [i]) ft fv st")
    case Panic
    then show ?thesis by (simp add: x unmarshalFields_Cons del: unmarshalFields.simps)
  next
    case (Ret r)
    obtain c pe fv1 s1 where r: "r = (c, pe, fv1, s1)" by (cases r)
    show ?thesis
    proof (cases pe)
      case (Some err)
      with Ret r show ?thesis by (simp add: x unmarshalFields_Cons del: unmarshalFields.simps)
    next
      case None
      note b = Ret [unfolded r None]
      show ?thesis
      proof (cases "unmarshalFields E ps p (Suc i) xs s1")
        case Panic
        with b show ?thesis
          by (simp add: x unmarshalFields_Cons Cons.IH del: unmarshalFields.simps)
      next
        case (Ret r2)
        obtain n e xs1 s2 where r2: "r2 = (n, e, xs1, s2)" by (cases r2)
        note t = Ret [unfolded r2]
        show ?thesis
        proof (cases e)
          case (Some err)
          with b t show ?thesis
            by (simp add: x unmarshalFields_Cons Cons.IH del: unmarshalFields.simps)
        next
          case None
          with b t show ?thesis
            by (cases "unmarshalFields E ps p (Suc (i + length xs)) ys s2")
              (auto simp add: x unmarshalFields_Cons Cons.IH simp del: unmarshalFields.simps)
        qed
      qed
    qed
  qed
qed

lemma abort_at:
  assumes pre: "unmarshalFields E ps [] 0 pre newState = Ret (n1, None, pre', st1)"
    and body: "loopBody E ps [length pre] ft fv st1 = Ret (n2, Some e, fv', st2)"
  shows "UnmarshalParams E ps (Some (VPtr (VStruct nm (pre @ (ft, fv) # post)))) =
           Ret (Some e, Some (VPtr (VStruct nm (pre' @ (ft, fv') # post))), calls st2)"
proof -
  have "unmarshalFields E ps [] (length pre) ((ft, fv) # post) st1 =
          Ret (n2, Some e, (ft, fv') # post, st2)"
    using body by (simp add: unmarshalFields_Cons del: unmarshalFields.simps)
  with pre have "unmarshalFields E ps [] 0 (pre @ (ft, fv) # post) newState =
          Ret (n1 + n2, Some e, pre' @ (ft, fv') # post, st2)"
    by (simp add: unmarshalFields_append del: unmarshalFields.simps)
  then show ?thesis by (simp add: UnmarshalParams_def)
qed










section \<open>Key resolution and the name test\<close>

text \<open>
  Claim C2. For every exported, non-embedded field the parameter is looked up
  under the first non-empty of the name in the \<^verbatim>\<open>request\<close> tag, the \<^verbatim>\<open>response\<close>
  tag, the \<^verbatim>\<open>db\<close> tag when it is not \<^verbatim>\<open>"-"\<close>, and the lower-cased field name.
  \<^verbatim>\<open>NameAndArgs\<close> computes that key (\<open>fst_NameAndArgs\<close>), but the loop asks for
  it only when the first byte of the field name is a Latin-1 upper-case letter.
  The exported field whose name starts with U+1E00 and whose tag is
  \<^verbatim>\<open>request:"k"\<close> resolves to the key \<^verbatim>\<open>k\<close>, the parameter \<^verbatim>\<open>k\<close> is there, and the
  field is passed over: nothing is matched or assigned, and the call reports more
  parameters than fields.
\<close>

theorem name_test_misses_exported_field:
  "Exported (\<lparr>Name = upperName, Tag = [(''request'', ''k'')], Anonymous = False, Exported = True\<rparr>) \<and>
   \<not> Anonymous (\<lparr>Name = upperName, Tag = [(''request'', ''k'')], Anonymous = False, Exported = True\<rparr>) \<and>
   resolvedKey (plainEnv True)
     (\<lparr>Name = upperName, Tag = [(''request'', ''k'')], Anonymous = False, Exported = True\<rparr>) = ''k'' \<and>
   map_of [(''k'', Some (VString ''string'' ''x''))] ''k'' = Some (Some (VString ''string'' ''x'')) \<and>
   unmarshalField (plainEnv True) [(''k'', Some (VString ''string'' ''x''))] [0]
     (\<lparr>Name = upperName, Tag = [(''request'', ''k'')], Anonymous = False, Exported = True\<rparr>)
     (VString ''string'' []) newState = Ret (0, None, VString ''string'' [], newState) \<and>
   UnmarshalParams (plainEnv True) [(''k'', Some (VString ''string'' ''x''))]
     (Some (VPtr (VStruct ''T''
        [(\<lparr>Name = upperName, Tag = [(''request'', ''k'')], Anonymous = False, Exported = True\<rparr>,
          VString ''string'' [])]))) =
     Ret (Some (ErrorsNew ''More parameters passed than this model has fields.''),
          Some (VPtr (VStruct ''T''
            [(\<lparr>Name = upperName, Tag = [(''request'', ''k'')], Anonymous = False, Exported = True\<rparr>,
              VString ''string'' [])])), [])"
  by (simp add: eval_defs)

section \<open>Fields tagged \<^verbatim>\<open>"-"\<close>\<close>

lemma resolvedKey_dash:
  "requestName f = ''-'' \<or> (requestName f = [] \<and> TagGet f ''response'' = ''-'') \<Longrightarrow>
   resolvedKey E f = ''-''"
  by (auto simp: resolvedKey_def)

text \<open>
  Claim C3, as stated: a \<^verbatim>\<open>"-"\<close> in the \<^verbatim>\<open>request\<close>, \<^verbatim>\<open>response\<close> or \<^verbatim>\<open>db\<close> tag
  excludes the field from binding. It fails for the \<^verbatim>\<open>db\<close> tag: a field \<^verbatim>\<open>Foo\<close>
  tagged \<^verbatim>\<open>db:"-"\<close> is bound under \<^verbatim>\<open>foo\<close>, counted and assigned.
\<close>

theorem db_dash_counterexample:
  "TagGet (fieldOf ''Foo'' [(''db'', ''-'')]) ''db'' = ''-'' \<and>
   UnmarshalParams (plainEnv True) [(''foo'', Some (VString ''string'' ''x''))]
     (Some (VPtr (VStruct ''T'' [(fieldOf ''Foo'' [(''db'', ''-'')], VString ''string'' [])]))) =
     Ret (None,
          Some (VPtr (VStruct ''T'' [(fieldOf ''Foo'' [(''db'', ''-'')], VString ''string'' ''x'')])),
          [([0], fieldOf ''Foo'' [(''db'', ''-'')], BuiltinConversion)])"
  by (simp add: eval_defs)

text \<open>
  Claim C3, amended. For every non-embedded field: when the name in the
  \<^verbatim>\<open>request\<close> tag is \<^verbatim>\<open>"-"\<close>, or the \<^verbatim>\<open>request\<close> tag names no key and the
  \<^verbatim>\<open>response\<close> tag is \<^verbatim>\<open>"-"\<close>, the resolved key is \<^verbatim>\<open>"-"\<close> and the loop leaves the
  field, the count of matched fields, the list of missing fields and the record
  of calls as they were, whatever the parameters, the \<^verbatim>\<open>db\<close> tag and the name of
  the field are. A \<^verbatim>\<open>"-"\<close> in the \<^verbatim>\<open>db\<close> tag does not exclude the field: when the
  \<^verbatim>\<open>request\<close> and \<^verbatim>\<open>response\<close> tags give no key, the key is the lower-cased name.
\<close>

theorem dash_excludes_field:
  assumes name: "Name f \<noteq> []"
  shows "(requestName f = ''-'' \<or> (requestName f = [] \<and> TagGet f ''response'' = ''-'') \<longrightarrow>
            fst (NameAndArgs E f) = ''-'' \<and>
            unmarshalField E params p f v st = Ret (0, None, v, st)) \<and>
         (requestName f = [] \<and> TagGet f ''response'' = [] \<and> TagGet f ''db'' = ''-'' \<longrightarrow>
            fst (NameAndArgs E f) = ToLower E (Name f))"
proof (intro conjI impI)
  assume d: "requestName f = ''-'' \<or> (requestName f = [] \<and> TagGet f ''response'' = ''-'')"
  then have k: "resolvedKey E f = ''-''" by (rule resolvedKey_dash)
  then show "fst (NameAndArgs E f) = ''-''" by (simp add: fst_NameAndArgs)
  show "unmarshalField E params p f v st = Ret (0, None, v, st)"
  proof (cases "passesNameTest f")
    case True
    with k show ?thesis by (simp add: uf_skip)
  next
    case False
    with name show ?thesis by (simp add: uf_fails_test)
  qed
next
  assume "requestName f = [] \<and> TagGet f ''response'' = [] \<and> TagGet f ''db'' = ''-''"
  then show "fst (NameAndArgs E f) = ToLower E (Name f)"
    by (simp add: fst_NameAndArgs resolvedKey_def)
qed

theorem dash_excludes_field_witness:
  "Name (fieldOf ''Baz'' [(''response'', ''-''), (''db'', ''baz'')]) \<noteq> [] \<and>
   requestName (fieldOf ''Baz'' [(''response'', ''-''), (''db'', ''baz'')]) = [] \<and>
   TagGet (fieldOf ''Baz'' [(''response'', ''-''), (''db'', ''baz'')]) ''response'' = ''-'' \<and>
   fst (NameAndArgs (plainEnv True) (fieldOf ''Baz'' [(''response'', ''-''), (''db'', ''baz'')])) = ''-'' \<and>
   unmarshalField (plainEnv True) [(''baz'', Some (VString ''string'' ''x'')), (''-'', None)] [0]
     (fieldOf ''Baz'' [(''response'', ''-''), (''db'', ''baz'')]) (VString ''string'' []) newState =
     Ret (0, None, VString ''string'' [], newState) \<and>
   requestName (fieldOf ''Foo'' [(''db'', ''-'')]) = [] \<and>
   TagGet (fieldOf ''Foo'' [(''db'', ''-'')]) ''response'' = [] \<and>
   TagGet (fieldOf ''Foo'' [(''db'', ''-'')]) ''db'' = ''-'' \<and>
   fst (NameAndArgs (plainEnv True) (fieldOf ''Foo'' [(''db'', ''-'')])) = ''foo''"
proof -
  let ?f = "fieldOf ''Baz'' [(''response'', ''-''), (''db'', ''baz'')]"
  let ?g = "fieldOf ''Foo'' [(''db'', ''-'')]"
  have n: "Name ?f \<noteq> []" and r: "requestName ?f = []" and t: "TagGet ?f ''response'' = ''-''"
    by (simp_all add: fieldOf_def requestName_def TagGet_def)
  have n': "Name ?g \<noteq> []" and g: "requestName ?g = [] \<and> TagGet ?g ''response'' = [] \<and> TagGet ?g ''db'' = ''-''"
    by (simp_all add: fieldOf_def requestName_def TagGet_def)
  have low: "ToLower (plainEnv True) (Name ?g) = ''foo''"
    by (simp add: plainEnv_def fieldOf_def asciiLower_def)
  from dash_excludes_field [OF n, where E = "plainEnv True"
      and params = "[(''baz'', Some (VString ''string'' ''x'')), (''-'', None)]" and p = "[0]"
      and v = "VString ''string'' []" and st = newState] r t
  have a: "fst (NameAndArgs (plainEnv True) ?f) = ''-'' \<and>
     unmarshalField (plainEnv True) [(''baz'', Some (VString ''string'' ''x'')), (''-'', None)] [0]
       ?f (VString ''string'' []) newState = Ret (0, None, VString ''string'' [], newState)"
    by simp
  from dash_excludes_field [OF n', where E = "plainEnv True"] g low
  have b: "fst (NameAndArgs (plainEnv True) ?g) = ''foo''" by simp
  from n r t a g b show ?thesis by simp
qed

section \<open>The nullable wrapper\<close>

text \<open>
  Claim C4. A field of the nullable wrapper type for integers bound to null
  ends with its validity flag false; bound to 42 it ends valid with 42. The
  second half holds. For null, \<^verbatim>\<open>setValue\<close> returns at its first test with the
  error for a non-pointer target, before the line that would store
  \<^verbatim>\<open>value != nil\<close> in \<^verbatim>\<open>Valid\<close>: the wrapper is left as it was (valid, in the
  example) and the call fails.
\<close>

theorem null_into_nullable_wrapper:
  "setValue E False (nullInt64 x valid) None =
     Ret (Some (ErrorsNew ''Cannot set non-pointer value to null''), nullInt64 x valid, []) \<and>
   UnmarshalParams (plainEnv True) [(''n'', None)]
     (Some (VPtr (VStruct ''T'' [(fieldOf ''N'' [], nullInt64 5 True)]))) =
     Ret (Some (ErrorsNew ''Cannot set non-pointer value to null''),
          Some (VPtr (VStruct ''T'' [(fieldOf ''N'' [], nullInt64 5 True)])), []) \<and>
   UnmarshalParams (plainEnv True) [(''n'', Some (VInt ''int'' KInt 42))]
     (Some (VPtr (VStruct ''T'' [(fieldOf ''N'' [], nullInt64 0 False)]))) =
     Ret (None, Some (VPtr (VStruct ''T'' [(fieldOf ''N'' [], nullInt64 42 True)])),
          [([0], fieldOf ''N'' [], BuiltinConversion)])"
  by (simp add: eval_defs)

section \<open>The list of missing fields\<close>

text \<open>
  Claim C7. The list of missing fields is non-empty after the traversal exactly
  when a required, non-skipped, exported field has no parameter. The loop
  decides by the first byte of the name instead: the required exported field
  whose name starts with U+1E00 has no parameter and the list stays empty (the
  call succeeds), and the unexported field whose name starts with U+00F1 is put
  on the list.
\<close>

theorem missing_list_follows_name_test:
  "Exported (\<lparr>Name = upperName, Tag = [], Anonymous = False, Exported = True\<rparr>) \<and>
   isRequired (plainEnv True) \<lparr>Name = upperName, Tag = [], Anonymous = False, Exported = True\<rparr> \<and>
   resolvedKey (plainEnv True) \<lparr>Name = upperName, Tag = [], Anonymous = False, Exported = True\<rparr>
     = upperName \<and>
   unmarshalToValue (plainEnv True) [] []
     (VStruct ''T'' [(\<lparr>Name = upperName, Tag = [], Anonymous = False, Exported = True\<rparr>,
                      VString ''string'' [])]) newState =
     Ret (0, None,
          VStruct ''T'' [(\<lparr>Name = upperName, Tag = [], Anonymous = False, Exported = True\<rparr>,
                          VString ''string'' [])], newState) \<and>
   Names (missingErr (newState :: int tstate)) = [] \<and>
   UnmarshalParams (plainEnv True) []
     (Some (VPtr (VStruct ''T''
        [(\<lparr>Name = upperName, Tag = [], Anonymous = False, Exported = True\<rparr>,
          VString ''string'' [])]))) =
     Ret (None,
          Some (VPtr (VStruct ''T''
            [(\<lparr>Name = upperName, Tag = [], Anonymous = False, Exported = True\<rparr>,
              VString ''string'' [])])), []) \<and>
   \<not> Exported (\<lparr>Name = lowerName, Tag = [], Anonymous = False, Exported = False\<rparr>) \<and>
   UnmarshalParams (plainEnv True) []
     (Some (VPtr (VStruct ''T''
        [(\<lparr>Name = lowerName, Tag = [], Anonymous = False, Exported = False\<rparr>,
          VString ''string'' [])]))) =
     Ret (Some (MissingFieldsError \<lparr>Names = [lowerName]\<rparr>),
          Some (VPtr (VStruct ''T''
            [(\<lparr>Name = lowerName, Tag = [], Anonymous = False, Exported = False\<rparr>,
              VString ''string'' [])])), [])"
  by (simp add: eval_defs)

section \<open>Numeric coercion\<close>






section \<open>Requiredness\<close>








section \<open>The outcome of a call\<close>

text \<open>
  Claim C1. \<^verbatim>\<open>UnmarshalParams\<close> settles its outcome in this order. When the
  conversion of a matched field returns an error, the fields after it are left
  as they are and the error is what the call returns (first part: for a field of
  the outer record whose \<^verbatim>\<open>setValue\<close> fails; second part: for any turn of the loop
  that ends in an error, an embedded record included; third part: whatever error
  the traversal ends with is returned, before the count and the list are looked
  at). Otherwise, when fewer fields were matched than the map has entries, the
  call returns the error about more parameters than fields; otherwise, when the
  list of missing fields is not empty, it returns the \<^verbatim>\<open>MissingFields\<close>;
  otherwise nil.
\<close>

theorem outcome_priority:
  "(unmarshalFields E params [] 0 pre newState = Ret (n1, None, pre', st1) \<and>
    passesNameTest f \<and> \<not> Anonymous f \<and> resolvedKey E f \<noteq> ''-'' \<and>
    map_of params (resolvedKey E f) = Some raw \<and>
    setValue E (\<not> Exported f) v raw = Ret (Some e, v', cs) \<longrightarrow>
      UnmarshalParams E params (Some (VPtr (VStruct tn (pre @ (f, v) # post)))) =
        Ret (Some e, Some (VPtr (VStruct tn (pre' @ (f, v') # post))),
             calls st1 @ map (\<lambda>c. ([length pre], f, c)) cs)) \<and>
   (unmarshalFields E params [] 0 pre newState = Ret (n1, None, pre', st1) \<and>
    loopBody E params [length pre] f v st1 = Ret (n2, Some e, v', st2) \<longrightarrow>
      UnmarshalParams E params (Some (VPtr (VStruct tn (pre @ (f, v) # post)))) =
        Ret (Some e, Some (VPtr (VStruct tn (pre' @ (f, v') # post))), calls st2)) \<and>
   (unmarshalToValue E params [] tv newState = Ret (n, Some e, tv', st) \<longrightarrow>
      UnmarshalParams E params (Some (VPtr tv)) = Ret (Some e, Some (VPtr tv'), calls st)) \<and>
   (unmarshalToValue E params [] tv newState = Ret (n, None, tv', st) \<longrightarrow>
      UnmarshalParams E params (Some (VPtr tv)) =
        Ret (if n < len params
             then Some (ErrorsNew ''More parameters passed than this model has fields.'')
             else if Names (missingErr st) \<noteq> [] then Some (MissingFieldsError (missingErr st))
             else None,
             Some (VPtr tv'), calls st))"
proof (intro conjI impI; (elim conjE)?)
  assume pre: "unmarshalFields E params [] 0 pre newState = Ret (n1, None, pre', st1)"
    and h: "passesNameTest f" "\<not> Anonymous f" "resolvedKey E f \<noteq> ''-''"
      "map_of params (resolvedKey E f) = Some raw"
    and sv: "setValue E (\<not> Exported f) v raw = Ret (Some e, v', cs)"
  from h sv have "loopBody E params [length pre] f v st1 =
      Ret (1, Some e, v', logCalls [length pre] f cs st1)"
    by (simp add: loopBody_def uf_present)
  from abort_at [OF pre this]
  show "UnmarshalParams E params (Some (VPtr (VStruct tn (pre @ (f, v) # post)))) =
        Ret (Some e, Some (VPtr (VStruct tn (pre' @ (f, v') # post))),
             calls st1 @ map (\<lambda>c. ([length pre], f, c)) cs)"
    by (simp add: logCalls_def)
next
  assume "unmarshalFields E params [] 0 pre newState = Ret (n1, None, pre', st1)"
    and "loopBody E params [length pre] f v st1 = Ret (n2, Some e, v', st2)"
  then show "UnmarshalParams E params (Some (VPtr (VStruct tn (pre @ (f, v) # post)))) =
        Ret (Some e, Some (VPtr (VStruct tn (pre' @ (f, v') # post))), calls st2)"
    by (rule abort_at)
next
  assume "unmarshalToValue E params [] tv newState = Ret (n, Some e, tv', st)"
  then show "UnmarshalParams E params (Some (VPtr tv)) = Ret (Some e, Some (VPtr tv'), calls st)"
    by (simp add: UnmarshalParams_def)
next
  assume "unmarshalToValue E params [] tv newState = Ret (n, None, tv', st)"
  then show "UnmarshalParams E params (Some (VPtr tv)) =
        Ret (if n < len params
             then Some (ErrorsNew ''More parameters passed than this model has fields.'')
             else if Names (missingErr st) \<noteq> [] then Some (MissingFieldsError (missingErr st))
             else None,
             Some (VPtr tv'), calls st)"
    by (simp add: UnmarshalParams_def HasMissingFields_def)
qed

theorem outcome_priority_witness:
  "unmarshalFields (plainEnv True)
     [(''age'', Some (VString ''string'' ''abc'')), (''name'', Some (VString ''string'' ''x''))]
     [] 0 [] newState = Ret (0, None, [], newState) \<and>
   setValue (plainEnv True) (\<not> Exported (fieldOf ''Age'' [])) (VInt ''int8'' KInt8 0)
     (Some (VString ''string'' ''abc'')) =
     Ret (Some (NumError ''ParseInt'' ''abc'' ErrSyntax), VInt ''int8'' KInt8 0, [BuiltinConversion]) \<and>
   UnmarshalParams (plainEnv True)
     [(''age'', Some (VString ''string'' ''abc'')), (''name'', Some (VString ''string'' ''x''))]
     (Some (VPtr (VStruct ''Person'' [(fieldOf ''Age'' [], VInt ''int8'' KInt8 0),
                                      (fieldOf ''Name'' [], VString ''string'' [])]))) =
     Ret (Some (NumError ''ParseInt'' ''abc'' ErrSyntax),
          Some (VPtr (VStruct ''Person'' [(fieldOf ''Age'' [], VInt ''int8'' KInt8 0),
                                          (fieldOf ''Name'' [], VString ''string'' [])])),
          [([0], fieldOf ''Age'' [], BuiltinConversion)]) \<and>
   unmarshalToValue (plainEnv True)
     [(''foo'', Some (VString ''string'' ''x'')), (''zzz'', Some (VString ''string'' ''y''))] []
     (VStruct ''T'' [(fieldOf ''Foo'' [], VString ''string'' []),
                     (fieldOf ''Bar'' [], VString ''string'' [])]) newState =
     Ret (1, None,
          VStruct ''T'' [(fieldOf ''Foo'' [], VString ''string'' ''x''),
                         (fieldOf ''Bar'' [], VString ''string'' [])],
          \<lparr>missingErr = \<lparr>Names = [''bar'']\<rparr>,
           calls = [([0], fieldOf ''Foo'' [], BuiltinConversion)]\<rparr>) \<and>
   UnmarshalParams (plainEnv True)
     [(''foo'', Some (VString ''string'' ''x'')), (''zzz'', Some (VString ''string'' ''y''))]
     (Some (VPtr (VStruct ''T'' [(fieldOf ''Foo'' [], VString ''string'' []),
                                 (fieldOf ''Bar'' [], VString ''string'' [])]))) =
     Ret (Some (ErrorsNew ''More parameters passed than this model has fields.''),
          Some (VPtr (VStruct ''T'' [(fieldOf ''Foo'' [], VString ''string'' ''x''),
                                     (fieldOf ''Bar'' [], VString ''string'' [])])),
          [([0], fieldOf ''Foo'' [], BuiltinConversion)])"
proof -
  let ?E = "plainEnv True"
  let ?ps = "[(''age'', Some (VString ''string'' ''abc'')), (''name'', Some (VString ''string'' ''x''))]"
  let ?f = "fieldOf ''Age'' []"
  let ?qs = "[(''foo'', Some (VString ''string'' ''x'')), (''zzz'', Some (VString ''string'' ''y''))]"
  let ?tv = "VStruct ''T'' [(fieldOf ''Foo'' [], VString ''string'' []),
                     (fieldOf ''Bar'' [], VString ''string'' [])] :: int gval"
  let ?tv' = "VStruct ''T'' [(fieldOf ''Foo'' [], VString ''string'' ''x''),
                         (fieldOf ''Bar'' [], VString ''string'' [])] :: int gval"
  let ?st = "\<lparr>missingErr = \<lparr>Names = [''bar'']\<rparr>,
           calls = [([0], fieldOf ''Foo'' [], BuiltinConversion)]\<rparr> :: int tstate"
  have h: "unmarshalFields ?E ?ps [] 0 [] newState = Ret (0, None, [], newState)"
    "passesNameTest ?f" "\<not> Anonymous ?f" "resolvedKey ?E ?f \<noteq> ''-''"
    "map_of ?ps (resolvedKey ?E ?f) = Some (Some (VString ''string'' ''abc''))"
    "setValue ?E (\<not> Exported ?f) (VInt ''int8'' KInt8 0) (Some (VString ''string'' ''abc'')) =
       Ret (Some (NumError ''ParseInt'' ''abc'' ErrSyntax), VInt ''int8'' KInt8 0, [BuiltinConversion])"
    by (simp_all add: eval_defs)
  have t: "unmarshalToValue ?E ?qs [] ?tv newState = Ret (1, None, ?tv', ?st)"
    by (simp add: eval_defs)
  from h have H: "unmarshalFields ?E ?ps [] 0 [] newState = Ret (0, None, [], newState) \<and>
    passesNameTest ?f \<and> \<not> Anonymous ?f \<and> resolvedKey ?E ?f \<noteq> ''-'' \<and>
    map_of ?ps (resolvedKey ?E ?f) = Some (Some (VString ''string'' ''abc'')) \<and>
    setValue ?E (\<not> Exported ?f) (VInt ''int8'' KInt8 0) (Some (VString ''string'' ''abc'')) =
       Ret (Some (NumError ''ParseInt'' ''abc'' ErrSyntax), VInt ''int8'' KInt8 0, [BuiltinConversion])"
    by blast
  note a = outcome_priority [where E = ?E and params = ?ps and pre = "[]" and ?n1.0 = 0
      and pre' = "[]" and ?st1.0 = newState and f = ?f and raw = "Some (VString ''string'' ''abc'')"
      and v = "VInt ''int8'' KInt8 0" and v' = "VInt ''int8'' KInt8 0" and cs = "[BuiltinConversion]"
      and e = "NumError ''ParseInt'' ''abc'' ErrSyntax" and tn = "''Person''"
      and post = "[(fieldOf ''Name'' [], VString ''string'' [])]", THEN conjunct1, THEN mp, OF H]
  note b = outcome_priority [where E = ?E and params = ?qs and tv = ?tv and n = 1 and tv' = ?tv'
      and st = ?st, THEN conjunct2, THEN conjunct2, THEN conjunct2, THEN mp, OF t]
  from h(1,6) a t b show ?thesis by (simp add: newState_def len_def)
qed

section \<open>Calls of \<^verbatim>\<open>DefaultValue\<close>\<close>

lemma okEvents_Nil [simp]: "okEvents E ps []"
  by (simp add: okEvents_def defaultsAt_def)

lemma defaultsAt_append [simp]: "defaultsAt q (xs @ ys) = defaultsAt q xs @ defaultsAt q ys"
  by (simp add: defaultsAt_def)

lemma defaultsAt_empty: "\<forall>ev \<in> set xs. fst ev \<noteq> q \<Longrightarrow> defaultsAt q xs = []"
  by (auto simp: defaultsAt_def filter_empty_conv)

lemma okEvents_append:
  assumes "okEvents E ps xs" and "okEvents E ps ys"
    and "\<And>q. (\<forall>ev \<in> set xs. fst ev \<noteq> q) \<or> (\<forall>ev \<in> set ys. fst ev \<noteq> q)"
  shows "okEvents E ps (xs @ ys)"
proof -
  have "length (defaultsAt q (xs @ ys)) \<le> 1" for q
  proof -
    from assms(3) [of q] show ?thesis
    proof
      assume "\<forall>ev \<in> set xs. fst ev \<noteq> q"
      then have "defaultsAt q xs = []" by (rule defaultsAt_empty)
      with assms(2) show ?thesis by (simp add: okEvents_def)
    next
      assume "\<forall>ev \<in> set ys. fst ev \<noteq> q"
      then have "defaultsAt q ys = []" by (rule defaultsAt_empty)
      with assms(1) show ?thesis by (simp add: okEvents_def)
    qed
  qed
  with assms(1,2) show ?thesis by (auto simp: okEvents_def)
qed

lemma defaultsAt_map_none:
  "DefaultValueCall \<notin> set cs \<Longrightarrow> defaultsAt qa (map (\<lambda>c. (q, f, c)) cs) = []"
  by (induction cs) (auto simp: defaultsAt_def)

lemma okEvents_map_none:
  "DefaultValueCall \<notin> set cs \<Longrightarrow> okEvents E ps (map (\<lambda>c. (q, f, c)) cs)"
  by (auto simp: okEvents_def defaultsAt_map_none)

lemma okEvents_map_default:
  assumes "DefaultValueCall \<notin> set cs" and "map_of ps (resolvedKey E f) = None"
    and "\<not> isRequired E f"
  shows "okEvents E ps (map (\<lambda>c. (q, f, c)) (DefaultValueCall # cs))"
proof -
  have "length (defaultsAt qa (map (\<lambda>c. (q, f, c)) (DefaultValueCall # cs))) \<le> 1" for qa
  proof -
    have "defaultsAt qa (map (\<lambda>c. (q, f, c)) (DefaultValueCall # cs)) =
        defaultsAt qa [(q, f, DefaultValueCall)] @ defaultsAt qa (map (\<lambda>c. (q, f, c)) cs)"
      unfolding defaultsAt_append [symmetric] by simp
    then show ?thesis
      by (simp add: defaultsAt_map_none [OF assms(1)]) (simp add: defaultsAt_def)
  qed
  with assms show ?thesis by (auto simp: okEvents_def)
qed

lemma runPre_calls: "DefaultValueCall \<notin> set (snd (snd (runPre pre t)))"
  by (simp add: runPre_def split: option.splits prod.splits)

lemma runPost_calls: "DefaultValueCall \<notin> set (snd (snd (runPost post t)))"
  by (simp add: runPost_def split: option.splits prod.splits)

lemma runReceive_calls: "runReceive E rcv t v = Ret (e, t', cs) \<Longrightarrow> DefaultValueCall \<notin> set cs"
  by (auto simp: runReceive_def split: option.splits prod.splits outcome.splits)

lemma setValue_no_default:
  assumes "setValue E ro t raw = Ret (e, t', cs)"
  shows "DefaultValueCall \<notin> set cs"
proof (cases raw)
  case None
  with assms show ?thesis by (auto simp: setValue_def split: gval.splits if_splits)
next
  case (Some v)
  let ?t = "allocIfNil t"
  obtain pe t1 cs1 where p: "runPre (bindHook PreReceive E ?t) ?t = (pe, t1, cs1)"
    by (cases "runPre (bindHook PreReceive E ?t) ?t") auto
  from runPre_calls [of "bindHook PreReceive E ?t" ?t] p have c1: "DefaultValueCall \<notin> set cs1"
    by simp
  from assms Some have ro: "\<not> ro" by (auto simp: setValue_def split: if_splits)
  show ?thesis
  proof (cases pe)
    case (Some err)
    with assms \<open>raw = Some v\<close> ro p c1 show ?thesis by (simp add: setValue_def)
  next
    case None
    note pn = this
    show ?thesis
    proof (cases "runReceive E (bindHook Receive E ?t) t1 v")
      case Panic
      with assms \<open>raw = Some v\<close> ro p pn show ?thesis by (simp add: setValue_def)
    next
      case (Ret r)
      obtain e2 t2 cs2 where r: "r = (e2, t2, cs2)" by (cases r)
      from runReceive_calls [OF Ret [unfolded r]] have c2: "DefaultValueCall \<notin> set cs2" .
      obtain e3 t3 cs3 where q: "runPost (bindHook PostReceive E ?t) t2 = (e3, t3, cs3)"
        by (cases "runPost (bindHook PostReceive E ?t) t2") auto
      from runPost_calls [of "bindHook PostReceive E ?t" t2] q have c3: "DefaultValueCall \<notin> set cs3"
        by simp
      from assms \<open>raw = Some v\<close> ro p pn Ret r q c1 c2 c3 show ?thesis
        by (cases e2) (auto simp: setValue_def)
    qed
  qed
qed

lemma body_calls:
  assumes "unmarshalField E ps q f v st = Ret (n, e, v', st')"
  shows "\<exists>new. calls st' = calls st @ new \<and> (\<forall>ev \<in> set new. fst ev = q) \<and> okEvents E ps new"
proof -
  from assms have ne: "Name f \<noteq> []" by (auto simp: unmarshalField_def split: list.splits)
  have triv: "calls st' = calls st \<Longrightarrow> ?thesis"
    by (rule exI [of _ "[]"]) simp
  show ?thesis
  proof (cases "passesNameTest f")
    case False
    with ne assms have "calls st' = calls st" by (auto simp: uf_fails_test)
    then show ?thesis by (rule triv)
  next
    case pt: True
    show ?thesis
    proof (cases "resolvedKey E f = ''-''")
      case True
      with pt assms have "calls st' = calls st" by (auto simp: uf_skip)
      then show ?thesis by (rule triv)
    next
      case key: False
      show ?thesis
      proof (cases "map_of ps (resolvedKey E f)")
        case (Some raw)
        with pt key assms obtain cs where
          sv: "setValue E (\<not> Exported f) v raw = Ret (e, v', cs)" and st': "st' = logCalls q f cs st"
          by (auto simp: uf_present split: outcome.splits)
        from setValue_no_default [OF sv] have "okEvents E ps (map (\<lambda>c. (q, f, c)) cs)"
          by (rule okEvents_map_none)
        with st' show ?thesis by (auto simp: logCalls_def intro!: exI [of _ "map (\<lambda>c. (q, f, c)) cs"])
      next
        case None
        show ?thesis
        proof (cases "isRequired E f")
          case True
          with pt key None assms have "calls st' = calls st" by (auto simp: uf_required)
          then show ?thesis by (rule triv)
        next
          case nr: False
          show ?thesis
          proof (cases "DefaultValue (methodsOf E (type_of v))")
            case dn: None
            with pt key None nr assms have "calls st' = calls st"
              by (auto simp: uf_optional split: if_splits)
            then show ?thesis by (rule triv)
          next
            case (Some d)
            with pt key None nr assms obtain x cs where
              sv: "setValue E False v (d v) = Ret (x, v', cs)"
              and st': "st' = logCalls q f (DefaultValueCall # cs) st"
              by (auto simp: uf_optional split: if_splits outcome.splits)
            from setValue_no_default [OF sv] None nr
            have "okEvents E ps (map (\<lambda>c. (q, f, c)) (DefaultValueCall # cs))"
              by (rule okEvents_map_default)
            with st' show ?thesis
              by (auto simp: logCalls_def
                  intro!: exI [of _ "map (\<lambda>c. (q, f, c)) (DefaultValueCall # cs)"])
          qed
        qed
      qed
    qed
  qed
qed


lemma traversal_calls:
  fixes E :: "('f::zero) env"
  shows "unmarshalToValue E ps p v st = Ret (n, e, v', st') \<Longrightarrow>
     \<exists>new. calls st' = calls st @ new \<and> (\<forall>ev \<in> set new. \<exists>j r. fst ev = p @ j # r) \<and>
       okEvents E ps new"
    and "unmarshalFields E ps p i fs st = Ret (n, e, fs', st') \<Longrightarrow>
     \<exists>new. calls st' = calls st @ new \<and> (\<forall>ev \<in> set new. \<exists>j r. fst ev = p @ j # r \<and> i \<le> j) \<and>
       okEvents E ps new"
proof (induction E ps p v st and E ps p i fs st arbitrary: n e v' st' and n e fs' st'
    rule: unmarshalToValue_unmarshalFields.induct)
  case (1 E params p nm fs st)
  from "1.prems" obtain fs' where "unmarshalFields E params p 0 fs st = Ret (n, e, fs', st')"
    by (auto split: outcome.splits)
  from "1.IH" [OF this] show ?case by blast
next
  case (9 E params p i st)
  then have "calls st' = calls st @ []" by simp
  then show ?case by (intro exI [of _ "[]"]) simp
next
  case (10 E params p i fieldType field rest st)
  let ?body = "if Anonymous fieldType then unmarshalToValue E params (p @ [i]) field st
            else unmarshalField E params (p @ [i]) fieldType field st"
  from "10.prems" obtain c pe field1 st1 where body: "?body = Ret (c, pe, field1, st1)"
    by (auto split: outcome.splits)
  have "\<exists>new. calls st1 = calls st @ new \<and> (\<forall>ev \<in> set new. \<exists>r. fst ev = p @ i # r) \<and>
       okEvents E params new"
  proof (cases "Anonymous fieldType")
    case True
    with body have "unmarshalToValue E params (p @ [i]) field st = Ret (c, pe, field1, st1)"
      by simp
    from "10.IH"(1) [OF True this] obtain new where
      n: "calls st1 = calls st @ new" "\<forall>ev \<in> set new. \<exists>j r. fst ev = (p @ [i]) @ j # r"
      "okEvents E params new" by blast
    from n(2) have "\<forall>ev \<in> set new. \<exists>r. fst ev = p @ i # r" by auto
    with n(1,3) show ?thesis by blast
  next
    case False
    with body have "unmarshalField E params (p @ [i]) fieldType field st = Ret (c, pe, field1, st1)"
      by simp
    from body_calls [OF this] obtain new where
      n: "calls st1 = calls st @ new" "\<forall>ev \<in> set new. fst ev = p @ [i]" "okEvents E params new"
      by blast
    from n(2) have "\<forall>ev \<in> set new. \<exists>r. fst ev = p @ i # r" by auto
    with n(1,3) show ?thesis by blast
  qed
  then obtain new1 where n1: "calls st1 = calls st @ new1"
    "\<forall>ev \<in> set new1. \<exists>r. fst ev = p @ i # r" "okEvents E params new1" by blast
  show ?case
  proof (cases pe)
    case (Some err)
    with "10.prems" body have "st' = st1" by simp
    with n1 show ?thesis by (intro exI [of _ new1]) auto
  next
    case None
    with "10.prems" body obtain m rest' where
      r: "unmarshalFields E params p (Suc i) rest st1 = Ret (m, e, rest', st')"
      by (auto split: outcome.splits)
    have npe: "\<not> pe \<noteq> None" using None by simp
    from "10.IH"(2) [OF body refl refl refl npe r] obtain new2 where
      n2: "calls st' = calls st1 @ new2"
      "\<forall>ev \<in> set new2. \<exists>j r. fst ev = p @ j # r \<and> Suc i \<le> j" "okEvents E params new2"
      by blast
    have disj: "(\<forall>ev \<in> set new1. fst ev \<noteq> q) \<or> (\<forall>ev \<in> set new2. fst ev \<noteq> q)" for q
    proof (rule ccontr)
      assume "\<not> ?thesis"
      then obtain a b where a: "a \<in> set new1" "fst a = q" and b: "b \<in> set new2" "fst b = q"
        by blast
      from n1(2) a obtain r where "q = p @ i # r" by auto
      moreover from n2(2) b obtain j r' where "q = p @ j # r'" "Suc i \<le> j" by auto
      ultimately show False by simp
    qed
    from okEvents_append [OF n1(3) n2(3) disj] have ok: "okEvents E params (new1 @ new2)" .
    from n1(2) n2(2) have "\<forall>ev \<in> set (new1 @ new2). \<exists>j r. fst ev = p @ j # r \<and> i \<le> j"
      by (auto intro: Suc_leD)
    with n1(1) n2(1) ok show ?thesis by (intro exI [of _ "new1 @ new2"]) simp
  qed
qed simp_all

text \<open>
  Claim C9. In every call of \<^verbatim>\<open>UnmarshalParams\<close> that returns, \<^verbatim>\<open>DefaultValue\<close>
  is called at most once for each field (each place in the record), and only for
  a field whose resolved key is not in the parameter map and that is not
  required once its options are read; so never for a field whose key is present.
\<close>

theorem default_value_calls:
  assumes "UnmarshalParams E params target = Ret (err, target', log)"
  shows "(\<forall>q. length (defaultsAt q log) \<le> 1) \<and>
         (\<forall>q f. (q, f, DefaultValueCall) \<in> set log \<longrightarrow>
            map_of params (resolvedKey E f) = None \<and> \<not> isRequired E f)"
proof -
  from assms obtain tv n e tv' st where
    t: "unmarshalToValue E params [] tv newState = Ret (n, e, tv', st)" and l: "log = calls st"
    by (auto simp: UnmarshalParams_def split: option.splits gval.splits outcome.splits)
  from traversal_calls(1) [OF t] l have "okEvents E params log"
    by (auto simp: newState_def)
  then show ?thesis by (force simp: okEvents_def)
qed

theorem default_value_calls_witness:
  "UnmarshalParams (userEnv False) [(''name'', Some (VString ''string'' ''x''))]
     (Some (VPtr (VStruct ''T'' [(fieldOf ''Name'' [], VString ''string'' []),
                                 (fieldOf ''Lvl'' [], VInt ''Level'' KInt 0)]))) =
     Ret (None,
          Some (VPtr (VStruct ''T'' [(fieldOf ''Name'' [], VString ''string'' ''x''),
                                     (fieldOf ''Lvl'' [], VInt ''Level'' KInt 7)])),
          [([0], fieldOf ''Name'' [], BuiltinConversion),
           ([1], fieldOf ''Lvl'' [], DefaultValueCall),
           ([1], fieldOf ''Lvl'' [], BuiltinConversion)]) \<and>
   length (defaultsAt [1]
     [([0], fieldOf ''Name'' [], BuiltinConversion),
      ([1], fieldOf ''Lvl'' [], DefaultValueCall),
      ([1], fieldOf ''Lvl'' [], BuiltinConversion :: int call)]) \<le> 1 \<and>
   map_of ([(''name'', Some (VString ''string'' ''x''))] :: int params)
     (resolvedKey (userEnv False) (fieldOf ''Lvl'' [])) = None \<and>
   \<not> isRequired (userEnv False) (fieldOf ''Lvl'' [])"
proof -
  let ?ps = "[(''name'', Some (VString ''string'' ''x''))] :: int params"
  let ?log = "[([0], fieldOf ''Name'' [], BuiltinConversion),
           ([1], fieldOf ''Lvl'' [], DefaultValueCall),
           ([1], fieldOf ''Lvl'' [], BuiltinConversion :: int call)]"
  have u: "UnmarshalParams (userEnv False) ?ps
     (Some (VPtr (VStruct ''T'' [(fieldOf ''Name'' [], VString ''string'' []),
                                 (fieldOf ''Lvl'' [], VInt ''Level'' KInt 0)]))) =
     Ret (None,
          Some (VPtr (VStruct ''T'' [(fieldOf ''Name'' [], VString ''string'' ''x''),
                                     (fieldOf ''Lvl'' [], VInt ''Level'' KInt 7)])), ?log)"
    by (simp add: eval_defs)
  have m: "([1], fieldOf ''Lvl'' [], DefaultValueCall) \<in> set ?log" by simp
  note T = default_value_calls [OF u]
  note a = T [THEN conjunct1, THEN spec, of "[1]"]
  note b = T [THEN conjunct2, THEN spec, THEN spec, THEN mp, OF m]
  note b1 = b [THEN conjunct1] and b2 = b [THEN conjunct2]
  show ?thesis by (intro conjI) (rule u, rule a, rule b1, rule b2)
qed

section \<open>Fields that receive their own value\<close>

text \<open>
  Claim C5, as stated: for every field whose type implements
  \<^verbatim>\<open>RequestValueReceiver\<close> and whose key is in the map, \<^verbatim>\<open>Receive\<close> is called with
  the raw value. It fails for a null value: the field \<^verbatim>\<open>PassHash *Password\<close> of the
  README, with the parameter \<^verbatim>\<open>password\<close> present and null, is left nil, the call
  succeeds and \<^verbatim>\<open>Receive\<close> is never called.
\<close>

theorem receive_skipped_for_null:
  "Receive (methodsOf (userEnv True) (type_of (VNil (TString ''Password'') :: int gval))) =
     Some passwordReceive \<and>
   map_of ([(''password'', None)] :: int params)
     (resolvedKey (userEnv True) (fieldOf ''PassHash'' [(''request'', ''password'')])) = Some None \<and>
   UnmarshalParams (userEnv True) [(''password'', None)]
     (Some (VPtr (VStruct ''User''
        [(fieldOf ''PassHash'' [(''request'', ''password'')], VNil (TString ''Password''))]))) =
     Ret (None,
          Some (VPtr (VStruct ''User''
            [(fieldOf ''PassHash'' [(''request'', ''password'')], VNil (TString ''Password''))])),
          [])"
  by (simp add: eval_defs)

lemma runPre_shape:
  "snd (snd (runPre pre t)) = [] \<or> snd (snd (runPre pre t)) = [PreReceiveCall]"
  by (simp add: runPre_def split: option.splits prod.splits)

lemma runPost_shape:
  "snd (snd (runPost post t)) = [] \<or> snd (snd (runPost post t)) = [PostReceiveCall]"
  by (simp add: runPost_def split: option.splits prod.splits)

lemma setValue_receive:
  assumes r: "bindHook Receive E (allocIfNil v) = Some (receiver, b)"
    and pre: "preError E v = None"
  shows "\<exists>e v' cs. setValue E False v (Some raw) = Ret (e, v', cs) \<and>
            count_list cs (ReceiveCall (Some raw)) = 1 \<and> BuiltinConversion \<notin> set cs \<and>
            (\<forall>err. fst (runHook (receiver (Some raw)) b (afterPre E v)) = Some err \<longrightarrow>
               e = Some err)"
proof -
  let ?t0 = "allocIfNil v"
  let ?pp = "runPre (bindHook PreReceive E ?t0) ?t0"
  let ?rr = "runHook (receiver (Some raw)) b (afterPre E v)"
  let ?qq = "runPost (bindHook PostReceive E ?t0) (snd ?rr)"
  obtain cs1 where pp: "?pp = (None, afterPre E v, cs1)" and cs1: "cs1 = snd (snd ?pp)"
    using pre by (cases ?pp) (simp add: preError_def afterPre_def)
  obtain e3 t3 cs3 where qq: "?qq = (e3, t3, cs3)" and cs3: "cs3 = snd (snd ?qq)"
    by (cases ?qq) simp
  have rcv: "runReceive E (Some (receiver, b)) (afterPre E v) raw =
      Ret (fst ?rr, snd ?rr, [ReceiveCall (Some raw)])"
    by (simp add: runReceive_def)
  have c1: "cs1 = [] \<or> cs1 = [PreReceiveCall]" unfolding cs1 by (rule runPre_shape)
  have c3: "cs3 = [] \<or> cs3 = [PostReceiveCall]" unfolding cs3 by (rule runPost_shape)
  show ?thesis
  proof (cases "fst ?rr")
    case (Some err)
    then have "setValue E False v (Some raw) =
        Ret (Some err, snd ?rr, cs1 @ [ReceiveCall (Some raw)])"
      by (simp add: setValue_def r pp rcv)
    with c1 Some show ?thesis by auto
  next
    case None
    then have "setValue E False v (Some raw) = Ret (e3, t3, cs1 @ [ReceiveCall (Some raw)] @ cs3)"
      by (simp add: setValue_def r pp rcv qq)
    with c1 c3 None show ?thesis by auto
  qed
qed

text \<open>
  Claim C5, amended. For a target whose type implements \<^verbatim>\<open>RequestValueReceiver\<close>,
  directly or through its address, a raw value that is not nil, and no error
  from the \<^verbatim>\<open>PreReceive\<close> method of the target (if it has one): \<^verbatim>\<open>setValue\<close>
  returns, it calls \<^verbatim>\<open>Receive\<close> exactly once with the raw value, the engine's own
  conversion does not run, and an error of \<^verbatim>\<open>Receive\<close> is the error of
  \<^verbatim>\<open>setValue\<close>. So it is for a field the loop binds whose key is in the map; and
  when the fields before it were bound without error, the error \<^verbatim>\<open>Receive\<close>
  returns is the error \<^verbatim>\<open>UnmarshalParams\<close> returns.
\<close>

theorem receiver_takes_over:
  assumes r: "bindHook Receive E (allocIfNil v) = Some (receiver, b)"
    and pre: "preError E v = None"
  shows "(\<exists>e v' cs. setValue E False v (Some raw) = Ret (e, v', cs) \<and>
            count_list cs (ReceiveCall (Some raw)) = 1 \<and> BuiltinConversion \<notin> set cs \<and>
            (\<forall>err. fst (runHook (receiver (Some raw)) b (afterPre E v)) = Some err \<longrightarrow>
               e = Some err)) \<and>
         (passesNameTest f \<and> Exported f \<and> resolvedKey E f \<noteq> ''-'' \<and>
          map_of params (resolvedKey E f) = Some (Some raw) \<longrightarrow>
            (\<exists>e v' cs. unmarshalField E params p f v st = Ret (1, e, v', logCalls p f cs st) \<and>
               count_list cs (ReceiveCall (Some raw)) = 1 \<and> BuiltinConversion \<notin> set cs \<and>
               (\<forall>err. fst (runHook (receiver (Some raw)) b (afterPre E v)) = Some err \<longrightarrow>
                  e = Some err))) \<and>
         (passesNameTest f \<and> Exported f \<and> \<not> Anonymous f \<and> resolvedKey E f \<noteq> ''-'' \<and>
          map_of params (resolvedKey E f) = Some (Some raw) \<and>
          unmarshalFields E params [] 0 pre newState = Ret (n1, None, pre', st1) \<and>
          fst (runHook (receiver (Some raw)) b (afterPre E v)) = Some err \<longrightarrow>
            (\<exists>v' cs. UnmarshalParams E params (Some (VPtr (VStruct tn (pre @ (f, v) # post)))) =
               Ret (Some err, Some (VPtr (VStruct tn (pre' @ (f, v') # post))),
                    calls st1 @ map (\<lambda>c. ([length pre], f, c)) cs) \<and>
               count_list cs (ReceiveCall (Some raw)) = 1 \<and> BuiltinConversion \<notin> set cs))"
proof -
  from setValue_receive [OF r pre, of raw] obtain e v' cs where
    sv: "setValue E False v (Some raw) = Ret (e, v', cs)"
    and c: "count_list cs (ReceiveCall (Some raw)) = 1" "BuiltinConversion \<notin> set cs"
    and er: "\<forall>err. fst (runHook (receiver (Some raw)) b (afterPre E v)) = Some err \<longrightarrow> e = Some err"
    by blast
  have one: "\<exists>e v' cs. setValue E False v (Some raw) = Ret (e, v', cs) \<and>
            count_list cs (ReceiveCall (Some raw)) = 1 \<and> BuiltinConversion \<notin> set cs \<and>
            (\<forall>err. fst (runHook (receiver (Some raw)) b (afterPre E v)) = Some err \<longrightarrow>
               e = Some err)"
    using sv c er by blast
  have two: "\<exists>e v' cs. unmarshalField E params p f v st = Ret (1, e, v', logCalls p f cs st) \<and>
               count_list cs (ReceiveCall (Some raw)) = 1 \<and> BuiltinConversion \<notin> set cs \<and>
               (\<forall>err. fst (runHook (receiver (Some raw)) b (afterPre E v)) = Some err \<longrightarrow>
                  e = Some err)"
    if "passesNameTest f" "Exported f" "resolvedKey E f \<noteq> ''-''"
      "map_of params (resolvedKey E f) = Some (Some raw)"
  proof -
    from that sv have "unmarshalField E params p f v st = Ret (1, e, v', logCalls p f cs st)"
      by (simp add: uf_present)
    with c er show ?thesis by blast
  qed
  have three: "\<exists>v' cs. UnmarshalParams E params (Some (VPtr (VStruct tn (pre @ (f, v) # post)))) =
               Ret (Some err, Some (VPtr (VStruct tn (pre' @ (f, v') # post))),
                    calls st1 @ map (\<lambda>c. ([length pre], f, c)) cs) \<and>
               count_list cs (ReceiveCall (Some raw)) = 1 \<and> BuiltinConversion \<notin> set cs"
    if h: "passesNameTest f" "Exported f" "\<not> Anonymous f" "resolvedKey E f \<noteq> ''-''"
      "map_of params (resolvedKey E f) = Some (Some raw)"
      and p: "unmarshalFields E params [] 0 pre newState = Ret (n1, None, pre', st1)"
      and f: "fst (runHook (receiver (Some raw)) b (afterPre E v)) = Some err"
  proof -
    from er f have e: "e = Some err" by blast
    from h sv e have "loopBody E params [length pre] f v st1 =
        Ret (1, Some err, v', logCalls [length pre] f cs st1)"
      by (simp add: loopBody_def uf_present)
    from abort_at [OF p this]
    have "UnmarshalParams E params (Some (VPtr (VStruct tn (pre @ (f, v) # post)))) =
               Ret (Some err, Some (VPtr (VStruct tn (pre' @ (f, v') # post))),
                    calls st1 @ map (\<lambda>c. ([length pre], f, c)) cs)"
      by (simp add: logCalls_def)
    with c show ?thesis by blast
  qed
  from one two three show ?thesis by blast
qed


theorem receiver_takes_over_witness:
  "bindHook Receive (userEnv True) (allocIfNil (VNil (TString ''Password'') :: int gval)) =
     Some (passwordReceive, OnPointer) \<and>
   preError (userEnv True) (VNil (TString ''Password'')) = None \<and>
   map_of ([(''username'', Some (VString ''string'' ''bob'')),
            (''password'', Some (VInt ''int'' KInt 5))] :: int params)
     (resolvedKey (userEnv True) (fieldOf ''PassHash'' [(''request'', ''password'')])) =
     Some (Some (VInt ''int'' KInt 5)) \<and>
   unmarshalFields (userEnv True)
     [(''username'', Some (VString ''string'' ''bob'')), (''password'', Some (VInt ''int'' KInt 5))]
     [] 0 [(fieldOf ''Username'' [], VString ''string'' [])] newState =
     Ret (1, None, [(fieldOf ''Username'' [], VString ''string'' ''bob'')],
          \<lparr>missingErr = \<lparr>Names = []\<rparr>,
           calls = [([0], fieldOf ''Username'' [], BuiltinConversion)]\<rparr>) \<and>
   fst (runHook (passwordReceive (Some (VInt ''int'' KInt 5))) OnPointer
          (afterPre (userEnv True) (VNil (TString ''Password'')))) =
     Some (ErrorsNew ''Cannot read non-string password'') \<and>
   (\<exists>v' cs. UnmarshalParams (userEnv True)
       [(''username'', Some (VString ''string'' ''bob'')), (''password'', Some (VInt ''int'' KInt 5))]
       (Some (VPtr (VStruct ''User''
          ([(fieldOf ''Username'' [], VString ''string'' [])] @
           (fieldOf ''PassHash'' [(''request'', ''password'')], VNil (TString ''Password'')) # [])))) =
       Ret (Some (ErrorsNew ''Cannot read non-string password''),
            Some (VPtr (VStruct ''User''
              ([(fieldOf ''Username'' [], VString ''string'' ''bob'')] @
               (fieldOf ''PassHash'' [(''request'', ''password'')], v') # []))),
            calls \<lparr>missingErr = \<lparr>Names = []\<rparr>,
                   calls = [([0], fieldOf ''Username'' [], BuiltinConversion)]\<rparr> @
            map (\<lambda>c. ([length [(fieldOf ''Username'' [], VString ''string'' [] :: int gval)]],
                        fieldOf ''PassHash'' [(''request'', ''password'')], c)) cs) \<and>
       count_list cs (ReceiveCall (Some (VInt ''int'' KInt 5))) = 1 \<and>
       BuiltinConversion \<notin> set cs) \<and>
   UnmarshalParams (userEnv True)
     [(''username'', Some (VString ''string'' ''bob'')), (''password'', Some (VInt ''int'' KInt 5))]
     (Some (VPtr (VStruct ''User''
        [(fieldOf ''Username'' [], VString ''string'' []),
         (fieldOf ''PassHash'' [(''request'', ''password'')], VNil (TString ''Password''))]))) =
     Ret (Some (ErrorsNew ''Cannot read non-string password''),
          Some (VPtr (VStruct ''User''
            [(fieldOf ''Username'' [], VString ''string'' ''bob''),
             (fieldOf ''PassHash'' [(''request'', ''password'')], VPtr (VString ''Password'' []))])),
          [([0], fieldOf ''Username'' [], BuiltinConversion),
           ([1], fieldOf ''PassHash'' [(''request'', ''password'')],
            ReceiveCall (Some (VInt ''int'' KInt 5)))])"
proof -
  let ?E = "userEnv True"
  let ?v = "VNil (TString ''Password'') :: int gval"
  let ?raw = "VInt ''int'' KInt 5 :: int gval"
  let ?f = "fieldOf ''PassHash'' [(''request'', ''password'')]"
  let ?ps = "[(''username'', Some (VString ''string'' ''bob'')), (''password'', Some ?raw)] :: int params"
  let ?pre = "[(fieldOf ''Username'' [], VString ''string'' [])] :: (StructField \<times> int gval) list"
  let ?pre' = "[(fieldOf ''Username'' [], VString ''string'' ''bob'')] :: (StructField \<times> int gval) list"
  let ?st1 = "\<lparr>missingErr = \<lparr>Names = []\<rparr>,
           calls = [([0], fieldOf ''Username'' [], BuiltinConversion)]\<rparr> :: int tstate"
  let ?err = "ErrorsNew ''Cannot read non-string password''"
  have r: "bindHook Receive ?E (allocIfNil ?v) = Some (passwordReceive, OnPointer)"
    by (simp add: eval_defs)
  have p: "preError ?E ?v = None"
    by (simp add: preError_def eval_defs)
  have m: "map_of ?ps (resolvedKey ?E ?f) = Some (Some ?raw)"
    by (simp add: eval_defs)
  have t: "unmarshalFields ?E ?ps [] 0 ?pre newState = Ret (1, None, ?pre', ?st1)"
    by (simp add: eval_defs)
  have x: "fst (runHook (passwordReceive (Some ?raw)) OnPointer (afterPre ?E ?v)) = Some ?err"
    by (simp add: afterPre_def eval_defs)
  have h: "passesNameTest ?f \<and> Exported ?f \<and> \<not> Anonymous ?f \<and> resolvedKey ?E ?f \<noteq> ''-'' \<and>
          map_of ?ps (resolvedKey ?E ?f) = Some (Some ?raw) \<and>
          unmarshalFields ?E ?ps [] 0 ?pre newState = Ret (1, None, ?pre', ?st1) \<and>
          fst (runHook (passwordReceive (Some ?raw)) OnPointer (afterPre ?E ?v)) = Some ?err"
    using m t x by (simp add: eval_defs)
  note c = receiver_takes_over [OF r p, where raw = ?raw and f = ?f and params = ?ps
      and pre = ?pre and ?n1.0 = 1 and pre' = ?pre' and ?st1.0 = ?st1 and err = ?err
      and tn = "''User''" and post = "[]", THEN conjunct2, THEN conjunct2, THEN mp, OF h]
  have u: "UnmarshalParams ?E ?ps
     (Some (VPtr (VStruct ''User'' [(fieldOf ''Username'' [], VString ''string'' []), (?f, ?v)]))) =
     Ret (Some ?err,
          Some (VPtr (VStruct ''User''
            [(fieldOf ''Username'' [], VString ''string'' ''bob''),
             (?f, VPtr (VString ''Password'' []))])),
          [([0], fieldOf ''Username'' [], BuiltinConversion),
           ([1], ?f, ReceiveCall (Some ?raw))])"
    by (simp add: eval_defs)
  show ?thesis by (intro conjI) (rule r, rule p, rule m, rule t, rule x, rule c, rule u)
qed

end
